theory Spec2Isabelle
  imports Complex_Main
begin

section \<open>Python values and exceptions\<close>

text \<open>
  The agent works on the values that \<^verbatim>\<open>requests.get(url).json()\<close> produces: \<^verbatim>\<open>None\<close>,
  booleans, integers, floats, strings, lists and dictionaries with string keys. A
  dictionary is the list of its items; keys are looked up with \<open>map_of\<close>.
  A float is modelled by the real number it denotes, so comparisons are exact, as in
  Python. The quotient \<^verbatim>\<open>props["time"] / 1000\<close> and the conversion of the time stamp are
  rounded as double precision rounds them (\<open>round_double\<close> below); the quotient
  \<^verbatim>\<open>float(brightness) / 100\<close> is kept exact, and the non-finite floats are not modelled.
\<close>

datatype pyval =
    PNone
  | PBool bool
  | PInt int
  | PFloat real
  | PStr string
  | PList "pyval list"
  | PDict "(string \<times> pyval) list"

datatype py_error =
    KeyError
  | IndexError
  | TypeError
  | AttributeError
  | ValueError
  | OverflowError
  | RequestException
  | PyMongoError

text \<open>Sequencing of two computations that may raise: the first exception wins.\<close>

definition and_then :: "py_error + 'a \<Rightarrow> ('a \<Rightarrow> py_error + 'b) \<Rightarrow> py_error + 'b" where
  "and_then r f = (case r of Inl e \<Rightarrow> Inl e | Inr v \<Rightarrow> f v)"

text \<open>\<^verbatim>\<open>x[k]\<close> with a string key \<open>k\<close>.\<close>

fun getitem_key :: "pyval \<Rightarrow> string \<Rightarrow> py_error + pyval" where
  "getitem_key (PDict kvs) k = (case map_of kvs k of Some v \<Rightarrow> Inr v | None \<Rightarrow> Inl KeyError)"
| "getitem_key _ k = Inl TypeError"

text \<open>\<^verbatim>\<open>x[i]\<close> with a literal index \<open>i \<ge> 0\<close> (the source only uses 0 and 1).\<close>

fun getitem_index :: "pyval \<Rightarrow> nat \<Rightarrow> py_error + pyval" where
  "getitem_index (PList xs) i = (if i < length xs then Inr (xs ! i) else Inl IndexError)"
| "getitem_index (PStr s) i = (if i < length s then Inr (PStr [s ! i]) else Inl IndexError)"
| "getitem_index (PDict kvs) i = Inl KeyError"
| "getitem_index _ i = Inl TypeError"

text \<open>\<^verbatim>\<open>x.get(k)\<close>: \<^verbatim>\<open>None\<close> for a missing key; only dictionaries have the method.\<close>

definition dict_get :: "(string \<times> pyval) list \<Rightarrow> string \<Rightarrow> pyval" where
  "dict_get kvs k = (case map_of kvs k of Some v \<Rightarrow> v | None \<Rightarrow> PNone)"

fun get_method :: "pyval \<Rightarrow> string \<Rightarrow> py_error + pyval" where
  "get_method (PDict kvs) k = Inr (dict_get kvs k)"
| "get_method _ k = Inl AttributeError"

text \<open>Truth value testing, as \<^verbatim>\<open>or\<close> and the conditional expression do it.\<close>

fun truthy :: "pyval \<Rightarrow> bool" where
  "truthy PNone = False"
| "truthy (PBool b) = b"
| "truthy (PInt i) = (i \<noteq> 0)"
| "truthy (PFloat r) = (r \<noteq> 0)"
| "truthy (PStr s) = (s \<noteq> [])"
| "truthy (PList xs) = (xs \<noteq> [])"
| "truthy (PDict kvs) = (kvs \<noteq> [])"

text \<open>The number a value denotes in arithmetic and comparisons (\<^verbatim>\<open>bool\<close> is an \<^verbatim>\<open>int\<close>).\<close>

fun as_number :: "pyval \<Rightarrow> real option" where
  "as_number (PBool b) = Some (if b then 1 else 0)"
| "as_number (PInt i) = Some (of_int i)"
| "as_number (PFloat r) = Some r"
| "as_number _ = None"

text \<open>\<^verbatim>\<open>c <= x\<close> and \<^verbatim>\<open>x <= c\<close> for a float literal \<open>c\<close>: a \<^verbatim>\<open>TypeError\<close> unless \<open>x\<close> is a number.\<close>

definition float_le :: "real \<Rightarrow> pyval \<Rightarrow> py_error + bool" where
  "float_le c x = (case as_number x of Some r \<Rightarrow> Inr (c \<le> r) | None \<Rightarrow> Inl TypeError)"

definition le_float :: "pyval \<Rightarrow> real \<Rightarrow> py_error + bool" where
  "le_float x c = (case as_number x of Some r \<Rightarrow> Inr (r \<le> c) | None \<Rightarrow> Inl TypeError)"

section \<open>The geographic filter\<close>

text \<open>
  \<^verbatim>\<open>return (6.0 <= lat <= 37.0) and (68.0 <= lon <= 97.0)\<close>: the chained comparison and
  \<^verbatim>\<open>and\<close> evaluate left to right and stop at the first false comparison.
\<close>

definition in_india :: "pyval \<Rightarrow> pyval \<Rightarrow> py_error + bool" where
  "in_india lat lon =
     and_then (float_le 6 lat) (\<lambda>c1. if \<not> c1 then Inr False else
     and_then (le_float lat 37) (\<lambda>c2. if \<not> c2 then Inr False else
     and_then (float_le 68 lon) (\<lambda>c3. if \<not> c3 then Inr False else
     le_float lon 97)))"

section \<open>UTC date-times\<close>

text \<open>
  A \<^verbatim>\<open>datetime\<close> whose \<^verbatim>\<open>tzinfo\<close> is \<^verbatim>\<open>timezone.utc\<close>: both constructions in the source
  attach that zone, so the fields alone identify the instant.
\<close>

record datetime =
  year :: int
  month :: int
  day :: int
  hour :: int
  minute :: int
  second :: int
  microsecond :: int

definition is_leap :: "int \<Rightarrow> bool" where
  "is_leap y = (y mod 4 = 0 \<and> (y mod 100 \<noteq> 0 \<or> y mod 400 = 0))"

text \<open>
  The proleptic Gregorian calendar as \<^verbatim>\<open>datetime\<close> computes it: the ordinal of a date
  (1 for 0001-01-01) and the date of an ordinal.
\<close>

definition DAYS_IN_MONTH :: "int list" where
  "DAYS_IN_MONTH = [- 1, 31, 28, 31, 30, 31, 30, 31, 31, 30, 31, 30, 31]"

definition DAYS_BEFORE_MONTH :: "int list" where
  "DAYS_BEFORE_MONTH = [- 1, 0, 31, 59, 90, 120, 151, 181, 212, 243, 273, 304, 334]"

definition days_before_year :: "int \<Rightarrow> int" where
  "days_before_year y = (y - 1) * 365 + (y - 1) div 4 - (y - 1) div 100 + (y - 1) div 400"

definition days_in_month :: "int \<Rightarrow> int \<Rightarrow> int" where
  "days_in_month y m = (if m = 2 \<and> is_leap y then 29 else DAYS_IN_MONTH ! nat m)"

definition days_before_month :: "int \<Rightarrow> int \<Rightarrow> int" where
  "days_before_month y m = DAYS_BEFORE_MONTH ! nat m + (if 2 < m \<and> is_leap y then 1 else 0)"

definition ymd2ord :: "int \<Rightarrow> int \<Rightarrow> int \<Rightarrow> int" where
  "ymd2ord y m d = days_before_year y + days_before_month y m + d"

text \<open>Month and day of the day \<open>n\<close> (from 0) of a year: an estimate of the month, corrected.\<close>

definition month_day :: "bool \<Rightarrow> int \<Rightarrow> int \<times> int" where
  "month_day leapyear n =
     (let month = (n + 50) div 32;
          preceding = DAYS_BEFORE_MONTH ! nat month + (if 2 < month \<and> leapyear then 1 else 0)
      in if n < preceding
         then (month - 1,
               n - (preceding - (DAYS_IN_MONTH ! nat (month - 1)
                                 + (if month - 1 = 2 \<and> leapyear then 1 else 0))) + 1)
         else (month, n - preceding + 1))"

definition ord2ymd :: "int \<Rightarrow> int \<times> int \<times> int" where
  "ord2ymd ordinal =
     (let n = ordinal - 1;
          n400 = n div 146097; r400 = n mod 146097;
          n100 = r400 div 36524; r100 = r400 mod 36524;
          n4 = r100 div 1461; r4 = r100 mod 1461;
          n1 = r4 div 365; r1 = r4 mod 365;
          y = n400 * 400 + 1 + n100 * 100 + n4 * 4 + n1
      in if n1 = 4 \<or> n100 = 4 then (y - 1, 12, 31)
         else (case month_day (n1 = 3 \<and> (n4 \<noteq> 24 \<or> n100 = 3)) r1 of
                 (m, d) \<Rightarrow> (y, m, d)))"

text \<open>Microseconds since 1970-01-01T00:00:00Z of a date-time (ordinal 719163 is that day).\<close>

definition epoch_microseconds :: "datetime \<Rightarrow> int" where
  "epoch_microseconds t =
     ((((ymd2ord (year t) (month t) (day t) - 719163) * 24 + hour t) * 60 + minute t) * 60
        + second t) * 1000000 + microsecond t"

text \<open>The date-times the \<^verbatim>\<open>datetime\<close> constructor accepts.\<close>

definition valid_datetime :: "datetime \<Rightarrow> bool" where
  "valid_datetime t =
     (1 \<le> year t \<and> year t \<le> 9999 \<and> 1 \<le> month t \<and> month t \<le> 12
      \<and> 1 \<le> day t \<and> day t \<le> days_in_month (year t) (month t)
      \<and> 0 \<le> hour t \<and> hour t < 24 \<and> 0 \<le> minute t \<and> minute t < 60
      \<and> 0 \<le> second t \<and> second t < 60 \<and> 0 \<le> microsecond t \<and> microsecond t < 1000000)"

definition round_half_even :: "real \<Rightarrow> int" where
  "round_half_even x =
     (let f = \<lfloor>x\<rfloor>; r = x - of_int f
      in if r < 1 / 2 then f else if 1 / 2 < r then f + 1
         else if even f then f else f + 1)"

text \<open>
  Double precision. \<open>bit_length\<close> is Python's \<^verbatim>\<open>int.bit_length\<close>; \<open>double_exponent x\<close> is
  the \<open>e\<close> with \<open>2\<^sup>e \<le> \<bar>x\<bar> < 2\<^sup>e\<^sup>+\<^sup>1\<close>; the doubles of that size are the multiples of
  \<open>quantum e = 2\<^sup>e\<^sup>-\<^sup>5\<^sup>2\<close> (of \<open>2\<^sup>-\<^sup>1\<^sup>0\<^sup>7\<^sup>4\<close> below the normal range), and \<open>round_double x\<close> is
  the nearest of them, the even one in a tie.
\<close>

function bit_length :: "int \<Rightarrow> int" where
  "bit_length n = (if n \<le> 0 then 0 else 1 + bit_length (n div 2))"
  by pat_completeness auto
termination
  by (relation "measure nat") auto

definition double_exponent :: "real \<Rightarrow> int" where
  "double_exponent x =
     (if 1 \<le> \<bar>x\<bar> then bit_length \<lfloor>\<bar>x\<bar>\<rfloor> - 1
      else - bit_length (\<lceil>1 / \<bar>x\<bar>\<rceil> - 1))"

definition quantum :: "int \<Rightarrow> real" where
  "quantum e = (if 52 \<le> e then 2 ^ nat (e - 52) else 1 / 2 ^ nat (52 - e))"

definition round_double :: "real \<Rightarrow> real" where
  "round_double x =
     (let q = quantum (max (double_exponent x) (- 1022))
      in of_int (round_half_even (x / q)) * q)"

text \<open>The integral part of a double, towards zero (\<^verbatim>\<open>modf\<close>).\<close>

definition py_trunc :: "real \<Rightarrow> int" where
  "py_trunc d = (if 0 \<le> d then \<lfloor>d\<rfloor> else \<lceil>d\<rceil>)"

text \<open>
  The date-time of a count of microseconds since the epoch; a day outside the years
  1..9999 (ordinals 1..3652059) is rejected with \<^verbatim>\<open>ValueError\<close> (year out of range). Time
  stamps beyond the platform's \<^verbatim>\<open>time_t\<close> or \<^verbatim>\<open>gmtime\<close> are rejected with \<^verbatim>\<open>OverflowError\<close> or
  \<^verbatim>\<open>OSError\<close> instead; the model says \<open>ValueError\<close> for them too.
\<close>

definition datetime_of_microseconds :: "int \<Rightarrow> py_error + datetime" where
  "datetime_of_microseconds us =
     (let ordinal = us div 86400000000 + 719163;
          rest = us mod 86400000000
      in if ordinal < 1 \<or> 3652059 < ordinal then Inl ValueError
         else (case ord2ymd ordinal of
                 (y, m, d) \<Rightarrow>
                   Inr \<lparr> year = y, month = m, day = d,
                          hour = rest div 3600000000,
                          minute = (rest div 60000000) mod 60,
                          second = (rest div 1000000) mod 60,
                          microsecond = rest mod 1000000 \<rparr>))"

text \<open>
  \<^verbatim>\<open>datetime.fromtimestamp(d, tz=timezone.utc)\<close> of a double \<open>d\<close>: the time stamp is split
  into its integral part and its fraction, the fraction is multiplied by \<open>10\<^sup>6\<close> in
  double precision and rounded to a whole number of microseconds, half to even; a
  fraction that rounds to a full second, or is negative, carries into the seconds, which
  leaves the sum unchanged.
\<close>

definition utc_fromtimestamp :: "real \<Rightarrow> py_error + datetime" where
  "utc_fromtimestamp d =
     (let intpart = py_trunc d;
          floatpart = round_double ((d - of_int intpart) * 1000000)
      in datetime_of_microseconds (intpart * 1000000 + round_half_even floatpart))"

section \<open>Parsing \<^verbatim>\<open>%Y-%m-%d %H%M\<close>\<close>

text \<open>
  \<^verbatim>\<open>datetime.strptime\<close> turns the format into the regular expression
  \<^verbatim>\<open>(\d\d\d\d)-(1[0-2]|0[1-9]|[1-9])-(3[0-1]|[1-2]\d|0[1-9]|[1-9]| [1-9])\s+(2[0-3]|[0-1]\d|\d)([0-5]\d|\d)\<close>,
  takes its first match at the start of the string (alternatives in the order written,
  with backtracking), rejects the string if the match does not reach its end, and then
  builds the date, which rejects year 0 and a day the month does not have.
  Each piece below returns its possible matches in the order the matcher tries them,
  each with the rest of the string. Characters are taken as code points below 256.
\<close>

definition is_digit :: "char \<Rightarrow> bool" where
  "is_digit c = (48 \<le> (of_char c :: nat) \<and> (of_char c :: nat) \<le> 57)"

definition digit_val :: "char \<Rightarrow> int" where
  "digit_val c = int (of_char c) - 48"

definition in_range :: "char \<Rightarrow> char \<Rightarrow> char \<Rightarrow> bool" where
  "in_range lo hi c = ((of_char lo :: nat) \<le> of_char c \<and> (of_char c :: nat) \<le> of_char hi)"

definition is_space :: "char \<Rightarrow> bool" where
  "is_space c = ((of_char c :: nat) \<in> {9, 10, 11, 12, 13, 28, 29, 30, 31, 32, 133, 160})"

fun year_alts :: "string \<Rightarrow> (int \<times> string) list" where
  "year_alts (a # b # c # d # r) =
     (if is_digit a \<and> is_digit b \<and> is_digit c \<and> is_digit d
      then [(1000 * digit_val a + 100 * digit_val b + 10 * digit_val c + digit_val d, r)]
      else [])"
| "year_alts _ = []"

fun literal :: "char \<Rightarrow> string \<Rightarrow> string list" where
  "literal x (c # r) = (if c = x then [r] else [])"
| "literal x [] = []"

text \<open>Two characters \<open>a\<close>, \<open>b\<close> accepted by \<open>p\<close> and \<open>q\<close>, read as a two-digit number.\<close>

fun two_chars :: "(char \<Rightarrow> bool) \<Rightarrow> (char \<Rightarrow> bool) \<Rightarrow> string \<Rightarrow> (int \<times> string) list" where
  "two_chars p q (a # b # r) = (if p a \<and> q b then [(10 * digit_val a + digit_val b, r)] else [])"
| "two_chars p q _ = []"

fun one_char :: "(char \<Rightarrow> bool) \<Rightarrow> string \<Rightarrow> (int \<times> string) list" where
  "one_char p (a # r) = (if p a then [(digit_val a, r)] else [])"
| "one_char p [] = []"

text \<open>Matching a piece and then the rest of the expression, for each of its matches in turn.\<close>

definition each_match :: "('a \<times> string) list \<Rightarrow> ('a \<Rightarrow> string \<Rightarrow> 'b list) \<Rightarrow> 'b list" where
  "each_match alts k = concat (map (\<lambda>(v, r). k v r) alts)"

definition each_rest :: "string list \<Rightarrow> (string \<Rightarrow> 'b list) \<Rightarrow> 'b list" where
  "each_rest rs k = concat (map k rs)"

definition month_alts :: "string \<Rightarrow> (int \<times> string) list" where
  "month_alts s =
     two_chars (\<lambda>c. c = CHR ''1'') (in_range CHR ''0'' CHR ''2'') s
     @ two_chars (\<lambda>c. c = CHR ''0'') (in_range CHR ''1'' CHR ''9'') s
     @ one_char (in_range CHR ''1'' CHR ''9'') s"

definition day_alts :: "string \<Rightarrow> (int \<times> string) list" where
  "day_alts s =
     two_chars (\<lambda>c. c = CHR ''3'') (in_range CHR ''0'' CHR ''1'') s
     @ two_chars (in_range CHR ''1'' CHR ''2'') is_digit s
     @ two_chars (\<lambda>c. c = CHR ''0'') (in_range CHR ''1'' CHR ''9'') s
     @ one_char (in_range CHR ''1'' CHR ''9'') s
     @ each_rest (literal CHR '' '' s) (one_char (in_range CHR ''1'' CHR ''9''))"

text \<open>\<^verbatim>\<open>\s+\<close> is greedy: the longest run of white space first, then shorter ones.\<close>

fun spaces_alts :: "string \<Rightarrow> string list" where
  "spaces_alts [] = []"
| "spaces_alts (c # r) = (if is_space c then spaces_alts r @ [r] else [])"

definition hour_alts :: "string \<Rightarrow> (int \<times> string) list" where
  "hour_alts s =
     two_chars (\<lambda>c. c = CHR ''2'') (in_range CHR ''0'' CHR ''3'') s
     @ two_chars (in_range CHR ''0'' CHR ''1'') is_digit s
     @ one_char is_digit s"

definition minute_alts :: "string \<Rightarrow> (int \<times> string) list" where
  "minute_alts s =
     two_chars (in_range CHR ''0'' CHR ''5'') is_digit s
     @ one_char is_digit s"

definition regex_matches :: "string \<Rightarrow> ((int \<times> int \<times> int \<times> int \<times> int) \<times> string) list" where
  "regex_matches s =
     each_match (year_alts s) (\<lambda>y r1.
     each_rest (literal CHR ''-'' r1) (\<lambda>r2.
     each_match (month_alts r2) (\<lambda>m r3.
     each_rest (literal CHR ''-'' r3) (\<lambda>r4.
     each_match (day_alts r4) (\<lambda>d r5.
     each_rest (spaces_alts r5) (\<lambda>r6.
     each_match (hour_alts r6) (\<lambda>h r7.
     each_match (minute_alts r7) (\<lambda>mi r8. [((y, m, d, h, mi), r8)]))))))))"

definition strptime :: "string \<Rightarrow> py_error + datetime" where
  "strptime s =
     (case regex_matches s of
        [] \<Rightarrow> Inl ValueError
      | ((y, m, d, h, mi), r) # _ \<Rightarrow>
          if r \<noteq> [] then Inl ValueError
          else if y < 1 \<or> days_in_month y m < d then Inl ValueError
          else Inr \<lparr> year = y, month = m, day = d, hour = h, minute = mi,
                     second = 0, microsecond = 0 \<rparr>)"

section \<open>The normalizers\<close>

text \<open>
  Two built-ins are not modelled but taken from the runtime: \<^verbatim>\<open>float(s)\<close> of a string
  (\<open>None\<close> when it raises \<^verbatim>\<open>ValueError\<close>) and the text of a float, a list or a dictionary.
\<close>

record runtime =
  float_of_str :: "string \<Rightarrow> real option"
  repr :: "pyval \<Rightarrow> string"

definition digit_char :: "nat \<Rightarrow> char" where
  "digit_char n = char_of (48 + n)"

function str_nat :: "nat \<Rightarrow> string" where
  "str_nat n = (if n < 10 then [digit_char n] else str_nat (n div 10) @ [digit_char (n mod 10)])"
  by pat_completeness auto
termination
  by (relation "measure id") auto

definition str_int :: "int \<Rightarrow> string" where
  "str_int i = (if i < 0 then CHR ''-'' # str_nat (nat (- i)) else str_nat (nat i))"

text \<open>The text an f-string substitutes for \<^verbatim>\<open>{v}\<close>.\<close>

fun format_value :: "runtime \<Rightarrow> pyval \<Rightarrow> string" where
  "format_value rt (PStr s) = s"
| "format_value rt PNone = ''None''"
| "format_value rt (PBool b) = (if b then ''True'' else ''False'')"
| "format_value rt (PInt i) = str_int i"
| "format_value rt v = repr rt v"

text \<open>\<^verbatim>\<open>float(v)\<close>.\<close>

fun py_float :: "runtime \<Rightarrow> pyval \<Rightarrow> py_error + real" where
  "py_float rt (PInt i) = Inr (of_int i)"
| "py_float rt (PFloat r) = Inr r"
| "py_float rt (PBool b) = Inr (if b then 1 else 0)"
| "py_float rt (PStr s) = (case float_of_str rt s of Some r \<Rightarrow> Inr r | None \<Rightarrow> Inl ValueError)"
| "py_float rt _ = Inl TypeError"

text \<open>
  \<^verbatim>\<open>v / c\<close> for a non-zero integer literal \<open>c\<close>: the quotient rounded to a double, an
  \<^verbatim>\<open>OverflowError\<close> when it is beyond the doubles, a \<^verbatim>\<open>TypeError\<close> unless \<open>v\<close> is a number.
\<close>

definition truediv :: "pyval \<Rightarrow> real \<Rightarrow> py_error + real" where
  "truediv v c =
     (case as_number v of
        Some r \<Rightarrow> (let q = round_double (r / c)
                   in if 2 ^ 1024 \<le> \<bar>q\<bar> then Inl OverflowError else Inr q)
      | None \<Rightarrow> Inl TypeError)"

text \<open>The unified record: the dictionary with the keys type, place, magnitude, coords, time.\<close>

record disaster =
  type :: string
  place :: pyval
  magnitude :: pyval
  coords :: "pyval list"
  time :: datetime

definition coordinates_of :: "pyval \<Rightarrow> py_error + pyval" where
  "coordinates_of event = and_then (getitem_key event ''geometry'') (\<lambda>g. getitem_key g ''coordinates'')"

definition normalize_usgs :: "pyval \<Rightarrow> py_error + disaster" where
  "normalize_usgs event =
     and_then (coordinates_of event) (\<lambda>cs.
     and_then (getitem_key event ''properties'') (\<lambda>props.
     and_then (get_method props ''place'') (\<lambda>pl.
     and_then (get_method props ''mag'') (\<lambda>mag.
     and_then (getitem_index cs 0) (\<lambda>c0.
     and_then (getitem_index cs 1) (\<lambda>c1.
     and_then (getitem_key props ''time'') (\<lambda>t.
     and_then (truediv t 1000) (\<lambda>secs.
     and_then (utc_fromtimestamp secs) (\<lambda>dt.
     Inr \<lparr> type = ''earthquake'', place = pl, magnitude = mag,
            coords = [c0, c1], time = dt \<rparr>)))))))))"

text \<open>
  \<open>now\<close> is what \<^verbatim>\<open>datetime.now(timezone.utc)\<close> returns if this call reads the clock.
  The \<^verbatim>\<open>try\<close> covers the formatting and the parse only.
\<close>

definition normalize_firms :: "runtime \<Rightarrow> datetime \<Rightarrow> pyval \<Rightarrow> py_error + disaster" where
  "normalize_firms rt now event =
     and_then (coordinates_of event) (\<lambda>cs.
     and_then (getitem_key event ''properties'') (\<lambda>props.
     and_then (get_method props ''brightness'') (\<lambda>brightness.
     and_then (get_method props ''acq_date'') (\<lambda>acq_date.
     and_then (get_method props ''acq_time'') (\<lambda>acq_time.
     let event_time =
           (case strptime (format_value rt acq_date @ '' '' @ format_value rt acq_time) of
              Inr t \<Rightarrow> t
            | Inl e \<Rightarrow> now)
     in
     and_then (get_method props ''satellite'') (\<lambda>sat.
     and_then (if truthy brightness
               then and_then (py_float rt brightness) (\<lambda>b. Inr (PFloat (b / 100)))
               else Inr PNone) (\<lambda>mag.
     and_then (getitem_index cs 0) (\<lambda>c0.
     and_then (getitem_index cs 1) (\<lambda>c1.
     Inr \<lparr> type = ''fire'',
            place = (if truthy sat then sat else PStr ''Unknown area''),
            magnitude = mag, coords = [c0, c1], time = event_time \<rparr>)))))))))"

section \<open>The collection and the upsert writer\<close>

text \<open>
  The collection \<^verbatim>\<open>coll\<close> is the list of its documents. \<open>faults\<close> says, for each coming
  call of \<^verbatim>\<open>update_one\<close>, whether the driver raises (network, server or encoding
  failure; none once the list is used up), and \<open>calls\<close> keeps the payload of every call
  made, in order.
\<close>

record collection =
  docs :: "disaster list"
  faults :: "bool list"
  calls :: "disaster list"

text \<open>
  What the collection makes of a value when it compares: numbers compare by value
  whatever their type (an integer is the float of the same value), booleans, strings
  and \<^verbatim>\<open>None\<close> as they are, arrays and embedded documents element by element.
\<close>

fun bson_value :: "pyval \<Rightarrow> pyval" where
  "bson_value (PInt i) = PFloat (of_int i)"
| "bson_value (PList xs) = PList (map bson_value xs)"
| "bson_value (PDict kvs) = PDict (map (\<lambda>kv. (fst kv, bson_value (snd kv))) kvs)"
| "bson_value v = v"

text \<open>A date-time is kept as a whole number of milliseconds.\<close>

definition truncate_ms :: "datetime \<Rightarrow> datetime" where
  "truncate_ms t = t \<lparr> microsecond := microsecond t div 1000 * 1000 \<rparr>"

text \<open>The document the collection keeps for a payload (without the \<^verbatim>\<open>_id\<close> it adds).\<close>

definition stored_form :: "disaster \<Rightarrow> disaster" where
  "stored_form doc = doc \<lparr> time := truncate_ms (time doc) \<rparr>"

text \<open>
  The filter \<^verbatim>\<open>{"coords": c, "time": t}\<close>: the document's \<open>coords\<close> equal the array \<open>c\<close>, or
  have it as an element, and its \<open>time\<close> is the same millisecond as \<open>t\<close>.
\<close>

definition matches :: "pyval list \<Rightarrow> datetime \<Rightarrow> disaster \<Rightarrow> bool" where
  "matches c t d =
     ((bson_value (PList (coords d)) = bson_value (PList c)
       \<or> list_ex (\<lambda>x. bson_value x = bson_value (PList c)) (coords d))
      \<and> truncate_ms (time d) = truncate_ms t)"

text \<open>
  \<^verbatim>\<open>coll.update_one({"coords": c, "time": t}, {"$setOnInsert": doc}, upsert=True)\<close>:
  when a document matches the filter nothing is changed; otherwise \<open>doc\<close> is inserted, in
  the form the collection keeps. A call that raises changes no document.
\<close>

definition update_one :: "pyval list \<Rightarrow> datetime \<Rightarrow> disaster \<Rightarrow> collection \<Rightarrow> py_error option \<times> collection" where
  "update_one c t doc coll =
     (let coll' = coll \<lparr> calls := calls coll @ [doc], faults := drop 1 (faults coll) \<rparr>
      in if take 1 (faults coll) = [True] then (Some PyMongoError, coll')
         else if list_ex (matches c t) (docs coll) then (None, coll')
         else (None, coll' \<lparr> docs := docs coll @ [stored_form doc] \<rparr>))"

datatype message =
    Fetching_earthquake_data
  | Fetching_fire_data
  | Upsert_failed py_error
  | Inserted_updated nat

text \<open>
  What \<^verbatim>\<open>requests.get\<close> returns: the status of the response, which the agent never
  reads, and what \<^verbatim>\<open>.json()\<close> makes of its body, an exception or the parsed value.
\<close>

record response =
  status_code :: nat
  json :: "py_error + pyval"

text \<open>
  What a cycle reads and changes: the answers of the two feeds (\<open>feeds url\<close> is what
  \<^verbatim>\<open>requests.get(url)\<close> does, an exception or a response), the requests made, the clock
  (\<open>clock i\<close> is the reading while the thermal feature at position \<open>i\<close> is normalized),
  the collection and the console.
\<close>

record world =
  feeds :: "string \<Rightarrow> py_error + response"
  requested :: "string list"
  clock :: "nat \<Rightarrow> datetime"
  store :: collection
  console :: "message list"

definition print :: "message \<Rightarrow> world \<Rightarrow> world" where
  "print m w = w \<lparr> console := console w @ [m] \<rparr>"

text \<open>The loop of \<^verbatim>\<open>upsert_events\<close>, with the counter \<open>inserted\<close> as accumulator.\<close>

fun upsert_loop :: "disaster list \<Rightarrow> nat \<Rightarrow> world \<Rightarrow> nat \<times> world" where
  "upsert_loop [] inserted w = (inserted, w)"
| "upsert_loop (ev # evs) inserted w =
     (case update_one (coords ev) (time ev) ev (store w) of
        (None, coll') \<Rightarrow> upsert_loop evs (inserted + 1) (w \<lparr> store := coll' \<rparr>)
      | (Some e, coll') \<Rightarrow> upsert_loop evs inserted (print (Upsert_failed e) (w \<lparr> store := coll' \<rparr>)))"

definition upsert_events :: "disaster list \<Rightarrow> world \<Rightarrow> nat \<times> world" where
  "upsert_events events w = upsert_loop events 0 w"

section \<open>The pipeline\<close>

definition USGS_URL :: string where
  "USGS_URL = ''https://earthquake.usgs.gov/earthquakes/feed/v1.0/summary/all_day.geojson''"

definition FIRMS_URL :: string where
  "FIRMS_URL = ''https://firms.modaps.eosdis.nasa.gov/data/active_fire/c6/geojson/global/24h.json''"

text \<open>\<^verbatim>\<open>requests.get(url).json()["features"]\<close>.\<close>

definition fetch_features :: "string \<Rightarrow> world \<Rightarrow> (py_error + pyval) \<times> world" where
  "fetch_features url w =
     (and_then (feeds w url) (\<lambda>r. and_then (json r) (\<lambda>body. getitem_key body ''features'')),
      w \<lparr> requested := requested w @ [url] \<rparr>)"

text \<open>The items a \<^verbatim>\<open>for\<close> clause draws from a value.\<close>

fun py_iter :: "pyval \<Rightarrow> py_error + pyval list" where
  "py_iter (PList xs) = Inr xs"
| "py_iter (PDict kvs) = Inr (map (\<lambda>kv. PStr (fst kv)) kvs)"
| "py_iter (PStr s) = Inr (map (\<lambda>c. PStr [c]) s)"
| "py_iter _ = Inl TypeError"

text \<open>
  The condition of both comprehensions:
  \<^verbatim>\<open>in_india(f["geometry"]["coordinates"][1], f["geometry"]["coordinates"][0])\<close>.
\<close>

definition in_box :: "pyval \<Rightarrow> py_error + bool" where
  "in_box f =
     and_then (and_then (coordinates_of f) (\<lambda>cs. getitem_index cs 1)) (\<lambda>lat.
     and_then (and_then (coordinates_of f) (\<lambda>cs. getitem_index cs 0)) (\<lambda>lon.
     in_india lat lon))"

fun earthquakes_of :: "pyval list \<Rightarrow> py_error + disaster list" where
  "earthquakes_of [] = Inr []"
| "earthquakes_of (f # fs) =
     and_then (in_box f) (\<lambda>b.
       if b then and_then (normalize_usgs f) (\<lambda>r.
                 and_then (earthquakes_of fs) (\<lambda>rs. Inr (r # rs)))
       else earthquakes_of fs)"

fun fires_of :: "runtime \<Rightarrow> (nat \<Rightarrow> datetime) \<Rightarrow> pyval list \<Rightarrow> py_error + disaster list" where
  "fires_of rt clk [] = Inr []"
| "fires_of rt clk (f # fs) =
     and_then (in_box f) (\<lambda>b.
       if b then and_then (normalize_firms rt (clk 0) f) (\<lambda>r.
                 and_then (fires_of rt (\<lambda>i. clk (Suc i)) fs) (\<lambda>rs. Inr (r # rs)))
       else fires_of rt (\<lambda>i. clk (Suc i)) fs)"

definition run_pipeline :: "runtime \<Rightarrow> world \<Rightarrow> (py_error + nat) \<times> world" where
  "run_pipeline rt w =
     (case fetch_features USGS_URL (print Fetching_earthquake_data w) of
        (Inl e, w1) \<Rightarrow> (Inl e, w1)
      | (Inr eq_data, w1) \<Rightarrow>
     (case fetch_features FIRMS_URL (print Fetching_fire_data w1) of
        (Inl e, w2) \<Rightarrow> (Inl e, w2)
      | (Inr fire_data, w2) \<Rightarrow>
     (case and_then (py_iter eq_data) earthquakes_of of
        Inl e \<Rightarrow> (Inl e, w2)
      | Inr earthquakes \<Rightarrow>
     (case and_then (py_iter fire_data) (fires_of rt (clock w2)) of
        Inl e \<Rightarrow> (Inl e, w2)
      | Inr fires \<Rightarrow>
     (case upsert_events (earthquakes @ fires) w2 of
        (inserted, w3) \<Rightarrow> (Inr inserted, print (Inserted_updated inserted) w3))))))"

section \<open>Notions used in the statements\<close>

text \<open>
  The identity key of a record as the collection compares it (numbers by value, the
  time to the millisecond), the documents a filter on \<open>coords\<close> and \<open>time\<close> finds, whether
  the \<open>i\<close>-th coming call of \<^verbatim>\<open>update_one\<close> raises, and how many of the next \<open>n\<close> calls do.
\<close>

definition key_of :: "disaster \<Rightarrow> pyval \<times> datetime" where
  "key_of d = (bson_value (PList (coords d)), truncate_ms (time d))"

definition stored_at :: "pyval list \<Rightarrow> datetime \<Rightarrow> collection \<Rightarrow> disaster list" where
  "stored_at c t coll = filter (matches c t) (docs coll)"

definition raises_at :: "collection \<Rightarrow> nat \<Rightarrow> bool" where
  "raises_at coll i = (i < length (faults coll) \<and> faults coll ! i)"

definition failures :: "collection \<Rightarrow> nat \<Rightarrow> nat" where
  "failures coll n = length (filter (\<lambda>b. b) (take n (faults coll)))"

text \<open>No two documents of a collection share both \<open>coords\<close> and \<open>time\<close>, so compared.\<close>

definition distinct_keys :: "disaster list \<Rightarrow> bool" where
  "distinct_keys ds = distinct (map key_of ds)"

text \<open>A GeoJSON feature with the given coordinates and properties.\<close>

definition feature :: "pyval list \<Rightarrow> (string \<times> pyval) list \<Rightarrow> pyval" where
  "feature cs ps =
     PDict [(''type'', PStr ''Feature''), (''properties'', PDict ps),
            (''geometry'', PDict [(''type'', PStr ''Point''), (''coordinates'', PList cs)])]"




text \<open>Sample data for the concrete runs.\<close>

definition sample_time :: datetime where
  "sample_time = \<lparr> year = 2023, month = 11, day = 14, hour = 22, minute = 13,
                    second = 20, microsecond = 0 \<rparr>"

definition plain_runtime :: runtime where
  "plain_runtime = \<lparr> float_of_str = (\<lambda>s. None), repr = (\<lambda>v. ''?'') \<rparr>"

definition blank_fire_props :: "(string \<times> pyval) list" where
  "blank_fire_props =
     [(''satellite'', PStr []), (''brightness'', PInt 0),
      (''acq_date'', PStr ''2024-03-01''), (''acq_time'', PStr ''0530'')]"

definition terra_fire_props :: "(string \<times> pyval) list" where
  "terra_fire_props =
     [(''satellite'', PStr ''Terra''), (''brightness'', PFloat (3125 / 10)),
      (''acq_date'', PStr ''2024-03-01''), (''acq_time'', PStr ''0530'')]"


definition march_first :: datetime where
  "march_first = \<lparr> year = 2024, month = 3, day = 1, hour = 5, minute = 30,
                    second = 0, microsecond = 0 \<rparr>"

definition ok_response :: "pyval \<Rightarrow> py_error + response" where
  "ok_response body = Inr \<lparr> status_code = 200, json = Inr body \<rparr>"

definition feeds_of :: "(py_error + response) \<Rightarrow> (py_error + response) \<Rightarrow> string \<Rightarrow> py_error + response" where
  "feeds_of usgs firms url =
     (if url = USGS_URL then usgs else if url = FIRMS_URL then firms else Inl RequestException)"

definition world_of :: "(py_error + response) \<Rightarrow> (py_error + response) \<Rightarrow> bool list \<Rightarrow> world" where
  "world_of usgs firms fs =
     \<lparr> feeds = feeds_of usgs firms, requested = [], clock = (\<lambda>i. sample_time),
       store = \<lparr> docs = [], faults = fs, calls = [] \<rparr>, console = [] \<rparr>"

definition feature_collection :: "pyval list \<Rightarrow> pyval" where
  "feature_collection fs = PDict [(''type'', PStr ''FeatureCollection''), (''features'', PList fs)]"

definition atlantic_quake :: pyval where
  "atlantic_quake =
     feature [PFloat (- 10), PFloat 50, PInt 5]
       [(''place'', PStr ''Atlantic''), (''mag'', PFloat 5), (''time'', PInt 1700000000000)]"

definition delhi_record :: disaster where
  "delhi_record = \<lparr> type = ''earthquake'', place = PStr ''Delhi'', magnitude = PFloat (45 / 10),
                      coords = [PFloat (772 / 10), PFloat (286 / 10)], time = sample_time \<rparr>"

definition terra_record :: disaster where
  "terra_record = \<lparr> type = ''fire'', place = PStr ''Terra'', magnitude = PFloat (3125 / 10 / 100),
                      coords = [PFloat (785 / 10), PFloat (221 / 10)], time = march_first \<rparr>"

definition terra_fire :: pyval where
  "terra_fire = feature [PFloat (785 / 10), PFloat (221 / 10)] terra_fire_props"

definition delhi_quake :: pyval where
  "delhi_quake =
     feature [PFloat (772 / 10), PFloat (286 / 10), PInt 10]
       [(''place'', PStr ''Delhi''), (''mag'', PFloat (45 / 10)), (''time'', PInt 1700000000000)]"

definition two_feeds_world :: world where
  "two_feeds_world =
     world_of (ok_response (feature_collection [atlantic_quake, delhi_quake]))
              (ok_response (feature_collection [terra_fire])) []"

definition quake_at :: "int \<Rightarrow> disaster" where
  "quake_at lon = \<lparr> type = ''earthquake'', place = PNone, magnitude = PInt 4,
                     coords = [PInt lon, PInt 28], time = sample_time \<rparr>"

definition offline_world :: "bool list \<Rightarrow> world" where
  "offline_world fs = \<lparr> feeds = (\<lambda>url. Inl RequestException), requested = [],
                         clock = (\<lambda>i. sample_time),
                         store = \<lparr> docs = [], faults = fs, calls = [] \<rparr>, console = [] \<rparr>"

section \<open>The calendar: ordinals and dates\<close>

lemma mod_zero_iff_full: "0 < x \<Longrightarrow> x \<le> k \<Longrightarrow> (x mod k = 0) = (x = (k::int))"
  by (cases "x = k") auto

lemma days_before_year_split:
  assumes "0 \<le> b" "b \<le> 3" "0 \<le> c" "c \<le> 24" "0 \<le> e" "e \<le> 3"
  shows "days_before_year (a * 400 + 1 + b * 100 + c * 4 + e)
           = 146097 * a + 36524 * b + 1461 * c + 365 * e"
proof -
  let ?y = "a * 400 + b * 100 + c * 4 + e"
  have d4: "?y div 4 = a * 100 + b * 25 + c"
    using assms by linarith
  have d100: "?y div 100 = a * 4 + b"
    using assms by linarith
  have d400: "?y div 400 = a"
    using assms by linarith
  have "a * 400 + 1 + b * 100 + c * 4 + e - 1 = ?y"
    by simp
  then show ?thesis
    unfolding days_before_year_def by (simp only: d4 d100 d400) simp
qed

lemma is_leap_split:
  assumes "0 \<le> b" "b \<le> 3" "0 \<le> c" "c \<le> 24" "0 \<le> e" "e \<le> 3"
  shows "is_leap (a * 400 + 1 + b * 100 + c * 4 + e) = (e = 3 \<and> (c \<noteq> 24 \<or> b = 3))"
proof -
  let ?y = "a * 400 + 1 + b * 100 + c * 4 + e"
  have "?y = (e + 1) + 4 * (a * 100 + b * 25 + c)"
    by simp
  then have "?y mod 4 = (e + 1) mod 4"
    by (simp only: mod_mult_self2)
  then have m4: "(?y mod 4 = 0) = (e + 1 = 4)"
    using assms by (simp only: mod_zero_iff_full[of "e + 1" 4])
  have "?y = (c * 4 + e + 1) + 100 * (a * 4 + b)"
    by simp
  then have "?y mod 100 = (c * 4 + e + 1) mod 100"
    by (simp only: mod_mult_self2)
  then have m100: "(?y mod 100 = 0) = (c * 4 + e + 1 = 100)"
    using assms by (simp only: mod_zero_iff_full[of "c * 4 + e + 1" 100])
  have "?y = (b * 100 + c * 4 + e + 1) + 400 * a"
    by simp
  then have "?y mod 400 = (b * 100 + c * 4 + e + 1) mod 400"
    by (simp only: mod_mult_self2)
  then have m400: "(?y mod 400 = 0) = (b * 100 + c * 4 + e + 1 = 400)"
    using assms by (simp only: mod_zero_iff_full[of "b * 100 + c * 4 + e + 1" 400])
  show ?thesis
    unfolding is_leap_def m4 m100 m400 using assms by auto
qed

lemma month_in_1_to_12:
  "1 \<le> k \<Longrightarrow> k \<le> 12 \<Longrightarrow>
     k = 1 \<or> k = 2 \<or> k = 3 \<or> k = 4 \<or> k = 5 \<or> k = 6 \<or> k = 7 \<or> k = 8
     \<or> k = 9 \<or> k = 10 \<or> k = 11 \<or> k = (12::int)"
  by presburger

lemma month_day_correct:
  assumes "0 \<le> n" and "n < (if leap then 366 else 365)"
    and "month_day leap n = (m, d)"
  shows "1 \<le> m \<and> m \<le> 12 \<and> 1 \<le> d
         \<and> d \<le> (if m = 2 \<and> leap then 29 else DAYS_IN_MONTH ! nat m)
         \<and> DAYS_BEFORE_MONTH ! nat m + (if 2 < m \<and> leap then 1 else 0) + d = n + 1"
proof -
  define k where "k = (n + 50) div 32"
  have k: "(n + 50) div 32 = k"
    by (simp add: k_def)
  have "1 \<le> k" and "k \<le> 12"
    using assms(1,2) unfolding k_def by (auto split: if_splits)
  then have "k = 1 \<or> k = 2 \<or> k = 3 \<or> k = 4 \<or> k = 5 \<or> k = 6 \<or> k = 7 \<or> k = 8
             \<or> k = 9 \<or> k = 10 \<or> k = 11 \<or> k = 12"
    by (rule month_in_1_to_12)
  moreover have "32 * k \<le> n + 50" and "n + 50 < 32 * k + 32"
    unfolding k_def by linarith+
  ultimately show ?thesis
    using assms
    unfolding month_day_def Let_def k DAYS_IN_MONTH_def DAYS_BEFORE_MONTH_def
    by (elim disjE) (auto split: if_splits)
qed

text \<open>The date of an ordinal is a date of the calendar, and its ordinal is the one given.\<close>

lemma ord2ymd_correct:
  assumes "1 \<le> n" and "ord2ymd n = (y, m, d)"
  shows "ymd2ord y m d = n \<and> 1 \<le> y \<and> 1 \<le> m \<and> m \<le> 12 \<and> 1 \<le> d \<and> d \<le> days_in_month y m"
proof -
  define a where "a = (n - 1) div 146097"
  define r400 where "r400 = (n - 1) mod 146097"
  define b where "b = r400 div 36524"
  define r100 where "r100 = r400 mod 36524"
  define c where "c = r100 div 1461"
  define r4 where "r4 = r100 mod 1461"
  define e where "e = r4 div 365"
  define r1 where "r1 = r4 mod 365"
  have n: "n - 1 = 146097 * a + r400" and r400: "0 \<le> r400" "r400 < 146097" and a: "0 \<le> a"
    using assms(1) unfolding a_def r400_def by (simp_all add: pos_imp_zdiv_nonneg_iff)
  have r400': "r400 = 36524 * b + r100" and r100: "0 \<le> r100" "r100 < 36524"
    and b: "0 \<le> b" "b \<le> 4"
    using r400 unfolding b_def r100_def by (simp_all add: pos_imp_zdiv_nonneg_iff)
  have r100': "r100 = 1461 * c + r4" and r4: "0 \<le> r4" "r4 < 1461"
    and c: "0 \<le> c" "c \<le> 24"
    using r100 unfolding c_def r4_def by (simp_all add: pos_imp_zdiv_nonneg_iff)
  have r4': "r4 = 365 * e + r1" and r1: "0 \<le> r1" "r1 < 365"
    and e: "0 \<le> e" "e \<le> 4"
    using r4 unfolding e_def r1_def by (simp_all add: pos_imp_zdiv_nonneg_iff)
  have sum: "n = 146097 * a + 36524 * b + 1461 * c + 365 * e + r1 + 1"
    using n r400' r100' r4' by linarith
  have o: "ord2ymd n =
      (if e = 4 \<or> b = 4 then (a * 400 + 1 + b * 100 + c * 4 + e - 1, 12, 31)
       else (case month_day (e = 3 \<and> (c \<noteq> 24 \<or> b = 3)) r1 of
               (m, d) \<Rightarrow> (a * 400 + 1 + b * 100 + c * 4 + e, m, d)))"
    unfolding ord2ymd_def Let_def a_def r400_def b_def r100_def c_def r4_def e_def r1_def
    by (rule refl)
  show ?thesis
  proof (cases "b = 4")
    case True
    with r400 r400' r100 have "r100 = 0"
      by linarith
    with r100' c r4 r4' e r1 have z: "c = 0" "e = 0" "r1 = 0"
      by linarith+
    from o True assms(2) have y: "y = a * 400 + 1 + 3 * 100 + 24 * 4 + 3" and md: "m = 12" "d = 31"
      by (simp_all add: z)
    have "days_before_year y = 146097 * a + 36524 * 3 + 1461 * 24 + 365 * 3"
      unfolding y by (rule days_before_year_split) simp_all
    moreover have "is_leap y"
      unfolding y by (subst is_leap_split) simp_all
    ultimately show ?thesis
      using sum True z a
      by (simp add: md ymd2ord_def days_before_month_def days_in_month_def
            DAYS_BEFORE_MONTH_def DAYS_IN_MONTH_def y)
  next
    case b4: False
    with b have b3: "b \<le> 3"
      by linarith
    show ?thesis
    proof (cases "e = 4")
      case True
      with r4 r4' r1 have z: "r1 = 0"
        by linarith
      from True r100 r100' r4' z have "c \<le> 23"
        by linarith
      from o True assms(2) have y: "y = a * 400 + 1 + b * 100 + c * 4 + 3" and md: "m = 12" "d = 31"
        by simp_all
      have "days_before_year y = 146097 * a + 36524 * b + 1461 * c + 365 * 3"
        unfolding y using b b3 c by (intro days_before_year_split) simp_all
      moreover have "is_leap y"
        unfolding y using b b3 c \<open>c \<le> 23\<close> by (subst is_leap_split) simp_all
      ultimately show ?thesis
        using sum True z a b c
        by (simp add: md ymd2ord_def days_before_month_def days_in_month_def
              DAYS_BEFORE_MONTH_def DAYS_IN_MONTH_def y)
    next
      case False
      with e have e3: "e \<le> 3"
        by linarith
      let ?leap = "e = 3 \<and> (c \<noteq> 24 \<or> b = 3)"
      from o b4 False assms(2)
      have y: "y = a * 400 + 1 + b * 100 + c * 4 + e" and md: "month_day ?leap r1 = (m, d)"
        by (simp_all split: prod.splits)
      have dby: "days_before_year y = 146097 * a + 36524 * b + 1461 * c + 365 * e"
        unfolding y using b b3 c e e3 by (intro days_before_year_split) simp_all
      have leap: "is_leap y = ?leap"
        unfolding y using b b3 c e e3 by (intro is_leap_split) simp_all
      have "r1 < (if ?leap then 366 else 365)"
        using r1 by simp
      with r1 md have "1 \<le> m \<and> m \<le> 12 \<and> 1 \<le> d
         \<and> d \<le> (if m = 2 \<and> ?leap then 29 else DAYS_IN_MONTH ! nat m)
         \<and> DAYS_BEFORE_MONTH ! nat m + (if 2 < m \<and> ?leap then 1 else 0) + d = r1 + 1"
        by (intro month_day_correct) simp_all
      moreover have "1 \<le> y"
        unfolding y using a b c e by simp
      ultimately show ?thesis
        using sum dby
        by (auto simp add: ymd2ord_def days_before_month_def days_in_month_def leap)
    qed
  qed
qed

lemma days_before_year_from_10000:
  assumes "10000 \<le> y"
  shows "3652059 \<le> days_before_year y"
proof -
  define z where "z = y - 1"
  have "z - 3 \<le> 4 * (z div 4)" and "100 * (z div 100) \<le> z" and "z - 399 \<le> 400 * (z div 400)"
    by linarith+
  moreover have "9999 \<le> z"
    using assms by (simp add: z_def)
  ultimately have "3652059 \<le> z * 365 + z div 4 - z div 100 + z div 400"
    by linarith
  then show ?thesis
    by (simp add: days_before_year_def z_def)
qed

lemma days_before_month_nonneg:
  assumes "1 \<le> m" and "m \<le> 12"
  shows "0 \<le> days_before_month y m"
  using month_in_1_to_12[OF assms]
  unfolding days_before_month_def DAYS_BEFORE_MONTH_def by (elim disjE) simp_all

lemma time_of_day:
  fixes r :: int
  assumes "0 \<le> r" "r < 86400000000"
  shows "0 \<le> r div 3600000000 \<and> r div 3600000000 < 24
       \<and> ((r div 3600000000) * 60 + (r div 60000000) mod 60) * 60 + (r div 1000000) mod 60
           = r div 1000000"
proof -
  have a: "r div 60000000 = (r div 1000000) div 60"
    and b: "r div 3600000000 = (r div 60000000) div 60"
    by (simp_all add: div_mult2_eq[symmetric])
  show ?thesis
    using assms unfolding b a by (simp add: pos_imp_zdiv_nonneg_iff)
qed

text \<open>
  A microsecond count that converts gives a date-time of the calendar that denotes
  exactly that count, and every count of the years 1..9999 converts.
\<close>

lemma datetime_of_microseconds_correct:
  assumes "datetime_of_microseconds us = Inr t"
  shows "valid_datetime t \<and> epoch_microseconds t = us"
proof -
  define n where "n = us div 86400000000 + 719163"
  define r where "r = us mod 86400000000"
  obtain y m d where o: "ord2ymd n = (y, m, d)"
    by (cases "ord2ymd n") auto
  from assms have n: "1 \<le> n" "n \<le> 3652059"
    and t: "t = \<lparr> year = y, month = m, day = d, hour = r div 3600000000,
                  minute = (r div 60000000) mod 60, second = (r div 1000000) mod 60,
                  microsecond = r mod 1000000 \<rparr>"
    unfolding datetime_of_microseconds_def Let_def n_def[symmetric] r_def[symmetric]
    by (auto simp: o split: if_splits)
  from ord2ymd_correct[OF n(1) o]
  have c: "ymd2ord y m d = n" "1 \<le> y" "1 \<le> m" "m \<le> 12" "1 \<le> d" "d \<le> days_in_month y m"
    by simp_all
  have "y \<le> 9999"
  proof (rule ccontr)
    assume "\<not> y \<le> 9999"
    then have "3652059 \<le> days_before_year y"
      by (intro days_before_year_from_10000) simp
    moreover have "0 \<le> days_before_month y m"
      using c by (intro days_before_month_nonneg)
    ultimately show False
      using c(1,5) n(2) by (simp add: ymd2ord_def)
  qed
  have r: "0 \<le> r" "r < 86400000000"
    by (simp_all add: r_def)
  note tod = time_of_day[OF r]
  have us: "us = (n - 719163) * 86400000000 + r"
    by (simp add: n_def r_def)
  have "epoch_microseconds t
          = ((n - 719163) * 86400 + (((r div 3600000000) * 60 + (r div 60000000) mod 60) * 60
               + (r div 1000000) mod 60)) * 1000000 + r mod 1000000"
    by (simp add: epoch_microseconds_def t c(1) algebra_simps)
  also have "\<dots> = ((n - 719163) * 86400 + r div 1000000) * 1000000 + r mod 1000000"
    using tod by simp
  also have "\<dots> = us"
    unfolding us by (simp add: algebra_simps)
  finally have "epoch_microseconds t = us" .
  moreover have "valid_datetime t"
    using c \<open>y \<le> 9999\<close> tod by (simp add: valid_datetime_def t)
  ultimately show ?thesis
    by simp
qed

lemma datetime_of_microseconds_defined:
  assumes "- 62135596800000000 \<le> us" and "us \<le> 253402300799999999"
  shows "\<exists>t. datetime_of_microseconds us = Inr t"
proof -
  have "- 719162 \<le> us div 86400000000" and "us div 86400000000 \<le> 2932896"
    using assms by linarith+
  then show ?thesis
    unfolding datetime_of_microseconds_def Let_def by (auto split: prod.splits)
qed


section \<open>Double precision: how far rounding moves a number\<close>

declare bit_length.simps [simp del]

lemma bit_length_nonneg: "0 \<le> bit_length n"
  by (induction n rule: bit_length.induct) (subst bit_length.simps, simp)

lemma bit_length_le: "n < 2 ^ k \<Longrightarrow> bit_length n \<le> int k"
proof (induction n arbitrary: k rule: bit_length.induct)
  case (1 n)
  show ?case
  proof (cases "n \<le> 0")
    case True
    then show ?thesis by (subst bit_length.simps) simp
  next
    case False
    with "1.prems" obtain j where k: "k = Suc j"
      by (cases k) auto
    with "1.prems" have "n div 2 < 2 ^ j"
      by simp
    with "1.IH"[OF False] have "bit_length (n div 2) \<le> int j" .
    with False k show ?thesis
      by (subst bit_length.simps) simp
  qed
qed

lemma bit_length_ge: "2 ^ k \<le> n \<Longrightarrow> int k + 1 \<le> bit_length n"
proof (induction n arbitrary: k rule: bit_length.induct)
  case (1 n)
  from "1.prems" have pos: "\<not> n \<le> 0"
    by (smt (verit) zero_less_power)
  show ?case
  proof (cases k)
    case 0
    with pos bit_length_nonneg[of "n div 2"] show ?thesis
      by (subst bit_length.simps) simp
  next
    case (Suc j)
    with "1.prems" have "2 ^ j \<le> n div 2"
      by simp
    with "1.IH"[OF pos] have "int j + 1 \<le> bit_length (n div 2)" .
    with pos Suc show ?thesis
      by (subst bit_length.simps) simp
  qed
qed


lemma quantum_pos: "0 < quantum e"
  by (simp add: quantum_def)

lemma quantum_mono: "e \<le> e' \<Longrightarrow> quantum e \<le> quantum e'"
proof -
  assume le: "e \<le> e'"
  have a: "(1::real) / 2 ^ m \<le> 2 ^ n" for m n :: nat
  proof -
    have "(1::real) / 2 ^ m \<le> 1" by simp
    also have "\<dots> \<le> 2 ^ n" by simp
    finally show ?thesis .
  qed
  show ?thesis
    using le by (auto simp: quantum_def a frac_le power_increasing nat_le_eq_zle)
qed

lemma round_half_even_near: "\<bar>of_int (round_half_even y) - y\<bar> \<le> 1 / 2"
  unfolding round_half_even_def Let_def by (auto simp: abs_le_iff)

lemma round_half_even_int_plus:
  assumes "\<bar>h\<bar> < 1 / 2"
  shows "round_half_even (of_int k + h) = k"
proof (cases "0 \<le> h")
  case True
  then have "\<lfloor>of_int k + h\<rfloor> = k"
    using assms by (intro floor_unique) auto
  then show ?thesis
    using assms True by (simp add: round_half_even_def Let_def)
next
  case False
  then have "\<lfloor>of_int k + h\<rfloor> = k - 1"
    using assms by (intro floor_unique) auto
  then show ?thesis
    using assms False by (simp add: round_half_even_def Let_def)
qed

lemma round_double_error:
  "\<bar>round_double x - x\<bar> \<le> quantum (max (double_exponent x) (- 1022)) / 2"
proof -
  define q where "q = quantum (max (double_exponent x) (- 1022))"
  have q: "0 < q"
    by (simp add: q_def quantum_pos)
  have "round_double x - x = (of_int (round_half_even (x / q)) - x / q) * q"
    using q by (simp add: round_double_def Let_def q_def[symmetric] algebra_simps)
  then have "\<bar>round_double x - x\<bar> = \<bar>of_int (round_half_even (x / q)) - x / q\<bar> * q"
    using q by (simp add: abs_mult)
  also have "\<dots> \<le> 1 / 2 * q"
    using q round_half_even_near[of "x / q"] by (intro mult_right_mono) simp_all
  finally show ?thesis
    by (simp add: q_def)
qed

lemma double_exponent_le:
  assumes "\<bar>x\<bar> < 2 ^ Suc k"
  shows "double_exponent x \<le> int k"
proof (cases "1 \<le> \<bar>x\<bar>")
  case True
  have "\<lfloor>\<bar>x\<bar>\<rfloor> < 2 ^ Suc k"
    using assms by (simp add: floor_less_iff)
  then have "bit_length \<lfloor>\<bar>x\<bar>\<rfloor> \<le> int (Suc k)"
    by (rule bit_length_le)
  with True show ?thesis
    by (simp add: double_exponent_def)
next
  case False
  with bit_length_nonneg[of "\<lceil>1 / \<bar>x\<bar>\<rceil> - 1"] show ?thesis
    by (simp add: double_exponent_def)
qed

lemma round_double_close:
  assumes "\<bar>x\<bar> < 2 ^ Suc k" and "k \<le> 51"
  shows "\<bar>round_double x - x\<bar> \<le> 1 / 2 ^ (53 - k)"
proof -
  have "max (double_exponent x) (- 1022) \<le> int k"
    using double_exponent_le[OF assms(1)] by simp
  then have "quantum (max (double_exponent x) (- 1022)) \<le> quantum (int k)"
    by (rule quantum_mono)
  also have "\<dots> = 1 / 2 ^ (52 - k)"
    using assms(2) by (simp add: quantum_def nat_diff_distrib')
  finally have "quantum (max (double_exponent x) (- 1022)) / 2 \<le> 1 / 2 ^ (52 - k) / 2"
    by simp
  also have "\<dots> = 1 / 2 ^ Suc (52 - k)"
    by simp
  also have "Suc (52 - k) = 53 - k"
    using assms(2) by simp
  finally show ?thesis
    using round_double_error[of x] by linarith
qed

lemma py_trunc_frac: "\<bar>d - of_int (py_trunc d)\<bar> < 1"
  unfolding py_trunc_def by (auto simp: abs_less_iff) linarith+


section \<open>The geographic filter: properties\<close>

text \<open>
  C2. On numbers the filter returns true exactly when \<open>6 \<le> lat \<le> 37\<close> and
  \<open>68 \<le> lon \<le> 97\<close>, both bounds included, and it never raises.
\<close>

theorem in_india_iff_in_box:
  assumes "as_number lat = Some x" and "as_number lon = Some y"
  shows "in_india lat lon = Inr (6 \<le> x \<and> x \<le> 37 \<and> 68 \<le> y \<and> y \<le> 97)"
  using assms by (simp add: in_india_def and_then_def float_le_def le_float_def)

theorem in_india_boundary_witness:
  "as_number (PFloat 6) = Some 6 \<and> as_number (PInt 68) = Some 68
   \<and> as_number (PFloat 37) = Some 37 \<and> as_number (PFloat 97) = Some 97
   \<and> in_india (PFloat 6) (PInt 68) = Inr True
   \<and> in_india (PFloat 37) (PFloat 97) = Inr True
   \<and> in_india (PFloat 37) (PFloat (971 / 10)) = Inr False"
  using in_india_iff_in_box [of "PFloat 6" 6 "PInt 68" 68]
        in_india_iff_in_box [of "PFloat 37" 37 "PFloat 97" 97]
        in_india_iff_in_box [of "PFloat 37" 37 "PFloat (971 / 10)" "971 / 10"]
  by simp


section \<open>The upsert writer: properties\<close>

lemma update_one_calls: "calls (snd (update_one c t doc coll)) = calls coll @ [doc]"
  by (simp add: update_one_def Let_def)

lemma update_one_faults: "faults (snd (update_one c t doc coll)) = drop 1 (faults coll)"
  by (simp add: update_one_def Let_def)

lemma update_one_fst:
  "fst (update_one c t doc coll) = (if raises_at coll 0 then Some PyMongoError else None)"
  by (cases "faults coll") (auto simp: update_one_def Let_def raises_at_def)

lemma truncate_ms_idem: "truncate_ms (truncate_ms t) = truncate_ms t"
  by (simp add: truncate_ms_def)

lemma matches_stored_form: "matches c t (stored_form d) = matches c t d"
  by (simp add: matches_def stored_form_def truncate_ms_idem)

lemma matches_self: "matches (coords ev) (time ev) ev"
  by (simp add: matches_def)

lemma update_one_docs:
  "docs (snd (update_one c t doc coll)) =
     (if raises_at coll 0 \<or> stored_at c t coll \<noteq> [] then docs coll
      else docs coll @ [stored_form doc])"
  by (cases "faults coll")
     (auto simp: update_one_def Let_def raises_at_def stored_at_def list_ex_iff filter_empty_conv)

lemma upsert_loop_Cons:
  "upsert_loop (ev # evs) k w =
     (let coll' = snd (update_one (coords ev) (time ev) ev (store w))
      in if raises_at (store w) 0
         then upsert_loop evs k (print (Upsert_failed PyMongoError) (w \<lparr> store := coll' \<rparr>))
         else upsert_loop evs (Suc k) (w \<lparr> store := coll' \<rparr>))"
proof -
  obtain r c where u: "update_one (coords ev) (time ev) ev (store w) = (r, c)"
    by (cases "update_one (coords ev) (time ev) ev (store w)")
  have "r = (if raises_at (store w) 0 then Some PyMongoError else None)"
    using update_one_fst[of "coords ev" "time ev" ev "store w"] u by simp
  then show ?thesis by (simp add: u)
qed

declare upsert_loop.simps(2) [simp del]

lemma raises_at_update_one:
  "raises_at (snd (update_one c t doc coll)) j = raises_at coll (Suc j)"
  by (cases "faults coll") (auto simp: raises_at_def update_one_faults)

lemma upsert_loop_calls:
  "calls (store (snd (upsert_loop evs k w))) = calls (store w) @ evs"
  by (induction evs arbitrary: k w)
     (simp_all add: upsert_loop_Cons Let_def update_one_calls print_def)

lemma upsert_loop_faults:
  "faults (store (snd (upsert_loop evs k w))) = drop (length evs) (faults (store w))"
  by (induction evs arbitrary: k w)
     (simp_all add: upsert_loop_Cons Let_def update_one_faults print_def)

lemma failures_Suc:
  "failures coll (Suc n) =
     (if raises_at coll 0 then 1 else 0) + failures (snd (update_one c t doc coll)) n"
  by (cases "faults coll") (auto simp: failures_def raises_at_def update_one_faults)

lemma upsert_loop_count:
  "fst (upsert_loop evs k w) + failures (store w) (length evs) = k + length evs"
proof (induction evs arbitrary: k w)
  case Nil
  show ?case by (simp add: failures_def)
next
  case (Cons ev evs)
  let ?c = "snd (update_one (coords ev) (time ev) ev (store w))"
  show ?case
    using Cons.IH[of k "print (Upsert_failed PyMongoError) (w \<lparr> store := ?c \<rparr>)"]
          Cons.IH[of "Suc k" "w \<lparr> store := ?c \<rparr>"]
    by (simp add: upsert_loop_Cons Let_def print_def
          failures_Suc[of _ _ "coords ev" "time ev" ev])
qed

lemma upsert_loop_console:
  "console (snd (upsert_loop evs k w)) =
     console w @ replicate (failures (store w) (length evs)) (Upsert_failed PyMongoError)"
proof (induction evs arbitrary: k w)
  case Nil
  show ?case by (simp add: failures_def)
next
  case (Cons ev evs)
  show ?case
    by (simp add: upsert_loop_Cons Let_def print_def Cons.IH
          failures_Suc[of _ _ "coords ev" "time ev" ev] replicate_app_Cons_same)
qed

lemma stored_at_update_one_mono:
  "stored_at c t coll \<noteq> [] \<Longrightarrow> stored_at c t (snd (update_one c' t' doc coll)) \<noteq> []"
  by (simp add: stored_at_def update_one_docs)

lemma upsert_loop_keeps:
  "stored_at c t (store w) \<noteq> [] \<Longrightarrow> stored_at c t (store (snd (upsert_loop evs k w))) \<noteq> []"
  by (induction evs arbitrary: k w)
     (simp_all add: upsert_loop_Cons Let_def print_def stored_at_update_one_mono)

lemma update_one_written:
  "\<not> raises_at coll 0 \<Longrightarrow>
     stored_at (coords ev) (time ev) (snd (update_one (coords ev) (time ev) ev coll)) \<noteq> []"
  by (auto simp: update_one_docs stored_at_def matches_stored_form matches_self)

lemma upsert_loop_written:
  "i < length evs \<Longrightarrow> \<not> raises_at (store w) i \<Longrightarrow>
     stored_at (coords (evs ! i)) (time (evs ! i)) (store (snd (upsert_loop evs k w))) \<noteq> []"
proof (induction evs arbitrary: i k w)
  case Nil
  then show ?case by simp
next
  case (Cons ev evs)
  let ?c = "snd (update_one (coords ev) (time ev) ev (store w))"
  show ?case
  proof (cases i)
    case 0
    with Cons.prems show ?thesis
      by (simp add: upsert_loop_Cons Let_def upsert_loop_keeps update_one_written)
  next
    case (Suc j)
    with Cons.prems have "j < length evs" and "\<not> raises_at ?c j"
      by (simp_all add: raises_at_update_one)
    then show ?thesis
      using Suc Cons.IH[of j "w \<lparr> store := ?c \<rparr>"]
            Cons.IH[of j "print (Upsert_failed PyMongoError) (w \<lparr> store := ?c \<rparr>)"]
      by (simp add: upsert_loop_Cons Let_def print_def)
  qed
qed

text \<open>
  C1, as the code has it. The writer calls \<^verbatim>\<open>update_one\<close> once for every record, in
  order, whatever fails; every failure is printed; a record whose call does not raise is
  in the collection afterwards; and the count returned is the number of calls that did
  not raise. It does not depend on the documents already stored, so a write that finds
  its key is counted like one that inserts.
\<close>

theorem upsert_events_counts_successes:
  "calls (store (snd (upsert_events events w))) = calls (store w) @ events
   \<and> fst (upsert_events events w) = length events - failures (store w) (length events)
   \<and> failures (store w) (length events) \<le> length events
   \<and> console (snd (upsert_events events w)) =
       console w @ replicate (failures (store w) (length events)) (Upsert_failed PyMongoError)
   \<and> (\<forall>i < length events. \<not> raises_at (store w) i \<longrightarrow>
         stored_at (coords (events ! i)) (time (events ! i))
           (store (snd (upsert_events events w))) \<noteq> [])
   \<and> fst (upsert_events events (w \<lparr> store := (store w) \<lparr> docs := ds \<rparr> \<rparr>))
       = fst (upsert_events events w)"
proof -
  have c: "fst (upsert_loop events 0 v) + failures (store v) (length events) = length events" for v
    using upsert_loop_count[of events 0 v] by simp
  have f: "failures (store (w \<lparr> store := (store w) \<lparr> docs := ds \<rparr> \<rparr>)) n = failures (store w) n" for n
    by (simp add: failures_def)
  have "fst (upsert_loop events 0 (w \<lparr> store := (store w) \<lparr> docs := ds \<rparr> \<rparr>))
          = fst (upsert_loop events 0 w)"
    using c[of w] c[of "w \<lparr> store := (store w) \<lparr> docs := ds \<rparr> \<rparr>"] f[of "length events"]
    by linarith
  moreover have "fst (upsert_loop events 0 w) = length events - failures (store w) (length events)"
    and "failures (store w) (length events) \<le> length events"
    using c[of w] by linarith+
  ultimately show ?thesis
    unfolding upsert_events_def
    by (simp add: upsert_loop_calls upsert_loop_console upsert_loop_written)
qed

theorem upsert_events_second_of_three_fails_witness:
  "(2::nat) < length [quake_at 77, quake_at 78, quake_at 79]
   \<and> \<not> raises_at (store (offline_world [False, True, False])) 2
   \<and> stored_at (coords (quake_at 79)) (time (quake_at 79))
        (store (snd (upsert_events [quake_at 77, quake_at 78, quake_at 79]
                      (offline_world [False, True, False])))) \<noteq> []
   \<and> fst (upsert_events [quake_at 77, quake_at 78, quake_at 79]
            (offline_world [False, True, False])) = 2"
proof -
  let ?b = "[quake_at 77, quake_at 78, quake_at 79]"
  let ?w = "offline_world [False, True, False]"
  have h: "(2::nat) < length ?b" "\<not> raises_at (store ?w) 2"
    by (simp_all add: raises_at_def offline_world_def)
  have f: "failures (store ?w) (length ?b) = 1"
    by (simp add: failures_def offline_world_def)
  note t = upsert_events_counts_successes[of ?b ?w]
  from t have n: "fst (upsert_events ?b ?w) = length ?b - failures (store ?w) (length ?b)"
    by blast
  from t have "\<forall>i < length ?b. \<not> raises_at (store ?w) i \<longrightarrow>
      stored_at (coords (?b ! i)) (time (?b ! i)) (store (snd (upsert_events ?b ?w))) \<noteq> []"
    by blast
  with h have "stored_at (coords (?b ! 2)) (time (?b ! 2)) (store (snd (upsert_events ?b ?w))) \<noteq> []"
    by blast
  with h n f show ?thesis
    by simp
qed

theorem upsert_events_count_counterexample:
  "fst (upsert_events [quake_at 77, quake_at 78, quake_at 79]
          (offline_world [False, True, False])) = 2
   \<and> fst (upsert_events [quake_at 77, quake_at 78, quake_at 79]
            (offline_world [False, True, False]))
       \<noteq> length [quake_at 77, quake_at 78, quake_at 79]
   \<and> docs (store (snd (upsert_events [quake_at 77, quake_at 78, quake_at 79]
                        (offline_world [False, True, False]))))
       = [quake_at 77, quake_at 79]"
  by (simp add: upsert_events_def upsert_loop.simps(2) update_one_def Let_def print_def
        offline_world_def quake_at_def matches_def stored_form_def truncate_ms_def
        sample_time_def)


section \<open>The seismic normalizer: properties\<close>

lemma coordinates_of_feature: "coordinates_of (feature cs ps) = Inr (PList cs)"
  by (simp add: coordinates_of_def feature_def and_then_def)

lemma properties_of_feature: "getitem_key (feature cs ps) ''properties'' = Inr (PDict ps)"
  by (simp add: feature_def)

lemma normalize_usgs_result:
  assumes "coordinates_of event = Inr (PList (lon # lat # rest))"
    and "getitem_key event ''properties'' = Inr (PDict ps)"
    and "map_of ps ''time'' = Some t"
    and "truediv t 1000 = Inr secs"
    and "utc_fromtimestamp secs = Inr dt"
  shows "normalize_usgs event =
           Inr \<lparr> type = ''earthquake'', place = dict_get ps ''place'',
                  magnitude = dict_get ps ''mag'', coords = [lon, lat], time = dt \<rparr>"
  using assms by (simp add: normalize_usgs_def and_then_def)

lemma normalize_usgs_time_raises:
  assumes "coordinates_of event = Inr (PList (lon # lat # rest))"
    and "getitem_key event ''properties'' = Inr (PDict ps)"
    and "map_of ps ''time'' = Some t"
    and "truediv t 1000 = Inr secs"
    and "utc_fromtimestamp secs = Inl e"
  shows "normalize_usgs event = Inl e"
  using assms by (simp add: normalize_usgs_def and_then_def)

lemma normalize_usgs_no_time:
  assumes "getitem_key event ''properties'' = Inr (PDict ps)" and "map_of ps ''time'' = None"
  shows "\<exists>e. normalize_usgs event = Inl e"
  using assms
  by (auto simp: normalize_usgs_def and_then_def split: sum.splits)

lemma normalize_usgs_short_coordinates:
  assumes "coordinates_of event = Inr (PList cs)" and "length cs < 2"
  shows "\<exists>e. normalize_usgs event = Inl e"
proof -
  have "getitem_index (PList cs) 0 = Inl IndexError \<or> getitem_index (PList cs) 1 = Inl IndexError"
    using assms(2) by (cases cs) auto
  then show ?thesis
    using assms(1)
    by (auto simp: normalize_usgs_def and_then_def split: sum.splits)
qed

lemma timestamp_of_milliseconds:
  assumes "\<bar>ms\<bar> < 8589934592000"
  shows "truediv (PInt ms) 1000 = Inr (round_double (of_int ms / 1000))"
    and "utc_fromtimestamp (round_double (of_int ms / 1000)) = datetime_of_microseconds (1000 * ms)"
proof -
  define t where "t = (of_int ms / 1000 :: real)"
  define d where "d = round_double t"
  define T where "T = py_trunc d"
  define y where "y = (d - of_int T) * 1000000"
  define K where "K = 1000 * ms - T * 1000000"
  have "\<bar>of_int ms :: real\<bar> < 8589934592000"
    using assms by linarith
  then have t: "\<bar>t\<bar> < 2 ^ Suc 32"
    by (simp add: t_def)
  from round_double_close[OF t] have dt: "\<bar>d - t\<bar> \<le> 1 / 2 ^ 21"
    by (simp add: d_def)
  have "\<bar>t\<bar> < 8589934592" and "\<bar>d - t\<bar> \<le> 1"
    using t dt by simp_all
  then have "\<bar>d\<bar> < 2 ^ 34"
    by simp
  also have "(2::real) ^ 34 \<le> 2 ^ 1024"
    by (rule power_increasing) simp_all
  finally have "\<not> 2 ^ 1024 \<le> \<bar>d\<bar>"
    by simp
  then show "truediv (PInt ms) 1000 = Inr (round_double (of_int ms / 1000))"
    by (simp add: truediv_def Let_def d_def t_def)
  have "\<bar>d - of_int T\<bar> < 1"
    unfolding T_def by (rule py_trunc_frac)
  then have y: "\<bar>y\<bar> < 2 ^ Suc 19"
    by (simp add: y_def abs_mult)
  from round_double_close[OF y] have ry: "\<bar>round_double y - y\<bar> \<le> 1 / 2 ^ 34"
    by simp
  have yK: "y = of_int K + (d - t) * 1000000"
    by (simp add: y_def K_def t_def algebra_simps)
  define h where "h = (d - t) * 1000000 + (round_double y - y)"
  have "\<bar>(d - t) * 1000000\<bar> = \<bar>d - t\<bar> * 1000000"
    by (simp only: abs_mult abs_numeral)
  also have "\<dots> \<le> 1 / 2 ^ 21 * 1000000"
    using dt by (intro mult_right_mono) simp_all
  finally have "\<bar>(d - t) * 1000000\<bar> \<le> 1000000 / 2097152"
    by simp
  moreover have "\<bar>round_double y - y\<bar> \<le> 1 / 17179869184"
    using ry by simp
  ultimately have "\<bar>h\<bar> < 1 / 2"
    unfolding h_def by linarith
  moreover have "round_double y = of_int K + h"
    using yK by (simp add: h_def)
  ultimately have "round_half_even (round_double y) = K"
    by (simp only: round_half_even_int_plus)
  then have "utc_fromtimestamp d = datetime_of_microseconds (T * 1000000 + K)"
    unfolding utc_fromtimestamp_def Let_def T_def[symmetric] y_def[symmetric]
    by (simp only:)
  then show "utc_fromtimestamp (round_double (of_int ms / 1000)) = datetime_of_microseconds (1000 * ms)"
    by (simp add: K_def d_def t_def)
qed


lemma double_exponent_eq:
  assumes "1 \<le> \<bar>x\<bar>" and "2 ^ k \<le> \<lfloor>\<bar>x\<bar>\<rfloor>" and "\<lfloor>\<bar>x\<bar>\<rfloor> < 2 ^ Suc k"
  shows "double_exponent x = int k"
  using assms(1) bit_length_ge[OF assms(2)] bit_length_le[OF assms(3)]
  by (simp add: double_exponent_def)

lemma far_seconds: "truediv (PInt 10000000000001) 1000 = Inr (1310720000000131 / 131072)"
proof -
  have e: "double_exponent (10000000000001 / 1000) = int 33"
    by (rule double_exponent_eq) simp_all
  have "round_double (10000000000001 / 1000) = 1310720000000131 / 131072"
    by (simp add: round_double_def e quantum_def round_half_even_def Let_def)
  then show ?thesis
    by (simp add: truediv_def Let_def)
qed

lemma far_time:
  "utc_fromtimestamp (1310720000000131 / 131072) =
     Inr \<lparr> year = 2286, month = 11, day = 20, hour = 17, minute = 46, second = 40,
            microsecond = 999 \<rparr>"
proof -
  have t: "py_trunc (1310720000000131 / 131072) = 10000000000"
    by (simp add: py_trunc_def)
  have f: "(1310720000000131 / 131072 - of_int 10000000000) * 1000000 = (2046875 / 2048 :: real)"
    by simp
  have e: "double_exponent (2046875 / 2048) = int 9"
    by (rule double_exponent_eq) simp_all
  have r: "round_double (2046875 / 2048) = 2046875 / 2048"
    by (simp add: round_double_def e quantum_def round_half_even_def Let_def)
  have h: "round_half_even (2046875 / 2048) = 999"
    by (simp add: round_half_even_def Let_def)
  have "utc_fromtimestamp (1310720000000131 / 131072) = datetime_of_microseconds 10000000000000999"
    unfolding utc_fromtimestamp_def Let_def t f r h by simp
  also have "\<dots> = Inr \<lparr> year = 2286, month = 11, day = 20, hour = 17, minute = 46, second = 40,
            microsecond = 999 \<rparr>"
    by code_simp
  finally show ?thesis .
qed

lemma round_double_zero: "round_double 0 = 0"
  by (simp add: round_double_def round_half_even_def Let_def)

lemma year_10000_seconds: "truediv (PInt 253402300800000) 1000 = Inr 253402300800"
proof -
  have e: "double_exponent 253402300800 = int 37"
    by (rule double_exponent_eq) simp_all
  have "round_double 253402300800 = 253402300800"
    by (simp add: round_double_def e quantum_def round_half_even_def Let_def)
  then show ?thesis
    by (simp add: truediv_def Let_def)
qed

lemma year_10000_time: "utc_fromtimestamp 253402300800 = Inl ValueError"
proof -
  have t: "py_trunc 253402300800 = 253402300800"
    by (simp add: py_trunc_def)
  have h: "round_half_even 0 = 0"
    by (simp add: round_half_even_def Let_def)
  have "utc_fromtimestamp 253402300800 = datetime_of_microseconds 253402300800000000"
    unfolding utc_fromtimestamp_def Let_def t by (simp add: round_double_zero h)
  also have "\<dots> = Inl ValueError"
    by code_simp
  finally show ?thesis .
qed

lemma sample_time_conv: "datetime_of_microseconds 1700000000000000 = Inr sample_time"
  by code_simp

lemma sample_seconds:
  "truediv (PInt 1700000000000) 1000 = Inr (round_double (of_int 1700000000000 / 1000))"
  "utc_fromtimestamp (round_double (of_int 1700000000000 / 1000)) = Inr sample_time"
proof -
  have b: "\<bar>1700000000000 :: int\<bar> < 8589934592000"
    by simp
  show "truediv (PInt 1700000000000) 1000 = Inr (round_double (of_int 1700000000000 / 1000))"
    by (rule timestamp_of_milliseconds(1)[OF b])
  have "datetime_of_microseconds (1000 * 1700000000000) = Inr sample_time"
    by (simp add: sample_time_conv)
  then show "utc_fromtimestamp (round_double (of_int 1700000000000 / 1000)) = Inr sample_time"
    by (simp only: timestamp_of_milliseconds(2)[OF b])
qed

text \<open>
  C4, as far as double precision carries it. A seismic feature with coordinates
  \<open>[lon, lat, \<dots>]\<close> and an integer \<open>time\<close> of fewer than 8589934592000 milliseconds (1000 times \<open>2\<^sup>3\<^sup>3\<close>)
  either side of the epoch (instants before 2242-03-16T12:56:32Z) is normalized to the record
  with type earthquake, the place and magnitude properties as they are, the coordinates
  \<open>[lon, lat]\<close>, and as time the date-time of the calendar that lies exactly \<open>time\<close>
  milliseconds after 1970-01-01T00:00:00Z: in this range the double \<open>time / 1000\<close> and
  the double product of its fraction with \<open>10\<^sup>6\<close> are less than half a microsecond away
  from the instant.
\<close>

theorem normalize_usgs_record:
  assumes "coordinates_of event = Inr (PList (lon # lat # rest))"
    and "getitem_key event ''properties'' = Inr (PDict ps)"
    and "map_of ps ''time'' = Some (PInt ms)"
    and "\<bar>ms\<bar> < 8589934592000"
  shows "\<exists>t. normalize_usgs event =
               Inr \<lparr> type = ''earthquake'', place = dict_get ps ''place'',
                      magnitude = dict_get ps ''mag'', coords = [lon, lat], time = t \<rparr>
             \<and> valid_datetime t \<and> epoch_microseconds t = 1000 * ms"
proof -
  have "- 62135596800000000 \<le> 1000 * ms" and "1000 * ms \<le> 253402300799999999"
    using assms(4) by linarith+
  then obtain t where t: "datetime_of_microseconds (1000 * ms) = Inr t"
    using datetime_of_microseconds_defined[of "1000 * ms"] by auto
  then have u: "utc_fromtimestamp (round_double (of_int ms / 1000)) = Inr t"
    by (simp only: timestamp_of_milliseconds(2)[OF assms(4)])
  have "normalize_usgs event =
      Inr \<lparr> type = ''earthquake'', place = dict_get ps ''place'',
             magnitude = dict_get ps ''mag'', coords = [lon, lat], time = t \<rparr>"
    by (rule normalize_usgs_result[OF assms(1-3) timestamp_of_milliseconds(1)[OF assms(4)] u])
  with datetime_of_microseconds_correct[OF t] show ?thesis
    by blast
qed

theorem normalize_usgs_delhi_witness:
  "coordinates_of delhi_quake = Inr (PList [PFloat (772 / 10), PFloat (286 / 10), PInt 10])
   \<and> map_of [(''place'', PStr ''Delhi''), (''mag'', PFloat (45 / 10)), (''time'', PInt 1700000000000)] ''time''
       = Some (PInt 1700000000000)
   \<and> normalize_usgs delhi_quake =
       Inr \<lparr> type = ''earthquake'', place = PStr ''Delhi'', magnitude = PFloat (45 / 10),
              coords = [PFloat (772 / 10), PFloat (286 / 10)],
              time = \<lparr> year = 2023, month = 11, day = 14, hour = 22, minute = 13,
                       second = 20, microsecond = 0 \<rparr> \<rparr>
   \<and> epoch_microseconds \<lparr> year = 2023, month = 11, day = 14, hour = 22, minute = 13,
                            second = 20, microsecond = 0 \<rparr> = 1000 * 1700000000000
   \<and> \<bar>1700000000000 :: int\<bar> < 8589934592000"
proof -
  let ?ps = "[(''place'', PStr ''Delhi''), (''mag'', PFloat (45 / 10)), (''time'', PInt 1700000000000)]"
  have c: "coordinates_of delhi_quake = Inr (PList [PFloat (772 / 10), PFloat (286 / 10), PInt 10])"
    unfolding delhi_quake_def by (rule coordinates_of_feature)
  have p: "getitem_key delhi_quake ''properties'' = Inr (PDict ?ps)"
    unfolding delhi_quake_def by (rule properties_of_feature)
  have m: "map_of ?ps ''time'' = Some (PInt 1700000000000)"
    by simp
  have b: "\<bar>1700000000000 :: int\<bar> < 8589934592000"
    by simp
  from normalize_usgs_record[OF c p m b]
  obtain t where n: "normalize_usgs delhi_quake =
               Inr \<lparr> type = ''earthquake'', place = dict_get ?ps ''place'',
                      magnitude = dict_get ?ps ''mag'',
                      coords = [PFloat (772 / 10), PFloat (286 / 10)], time = t \<rparr>"
    and e: "epoch_microseconds t = 1000 * 1700000000000"
    by auto
  have "normalize_usgs delhi_quake =
               Inr \<lparr> type = ''earthquake'', place = dict_get ?ps ''place'',
                      magnitude = dict_get ?ps ''mag'',
                      coords = [PFloat (772 / 10), PFloat (286 / 10)], time = sample_time \<rparr>"
    by (rule normalize_usgs_result[OF c p m sample_seconds])
  with n have "t = sample_time"
    by simp
  with n e c m show ?thesis
    by (simp add: dict_get_def sample_time_def)
qed

theorem normalize_usgs_far_time_counterexample:
  "normalize_usgs (feature [PFloat (772 / 10), PFloat (286 / 10), PInt 10]
       [(''place'', PStr ''Delhi''), (''mag'', PFloat (45 / 10)), (''time'', PInt 10000000000001)])
     = Inr \<lparr> type = ''earthquake'', place = PStr ''Delhi'', magnitude = PFloat (45 / 10),
            coords = [PFloat (772 / 10), PFloat (286 / 10)],
            time = \<lparr> year = 2286, month = 11, day = 20, hour = 17, minute = 46,
                     second = 40, microsecond = 999 \<rparr> \<rparr>
   \<and> epoch_microseconds \<lparr> year = 2286, month = 11, day = 20, hour = 17, minute = 46,
                            second = 40, microsecond = 999 \<rparr> = 10000000000000999
   \<and> epoch_microseconds \<lparr> year = 2286, month = 11, day = 20, hour = 17, minute = 46,
                            second = 40, microsecond = 999 \<rparr> \<noteq> 1000 * 10000000000001
   \<and> normalize_usgs (feature [PFloat (772 / 10), PFloat (286 / 10), PInt 10]
       [(''place'', PStr ''Delhi''), (''mag'', PFloat (45 / 10)), (''time'', PInt 253402300800000)])
     = Inl ValueError"
proof -
  let ?ps = "[(''place'', PStr ''Delhi''), (''mag'', PFloat (45 / 10)), (''time'', PInt 10000000000001)]"
  let ?qs = "[(''place'', PStr ''Delhi''), (''mag'', PFloat (45 / 10)), (''time'', PInt 253402300800000)]"
  have m: "map_of ?ps ''time'' = Some (PInt 10000000000001)"
    and n: "map_of ?qs ''time'' = Some (PInt 253402300800000)"
    by simp_all
  have "normalize_usgs (feature [PFloat (772 / 10), PFloat (286 / 10), PInt 10] ?ps) =
      Inr \<lparr> type = ''earthquake'', place = dict_get ?ps ''place'',
             magnitude = dict_get ?ps ''mag'',
             coords = [PFloat (772 / 10), PFloat (286 / 10)],
             time = \<lparr> year = 2286, month = 11, day = 20, hour = 17, minute = 46,
                      second = 40, microsecond = 999 \<rparr> \<rparr>"
    by (rule normalize_usgs_result[OF coordinates_of_feature properties_of_feature m
          far_seconds far_time])
  moreover have "normalize_usgs (feature [PFloat (772 / 10), PFloat (286 / 10), PInt 10] ?qs)
      = Inl ValueError"
    by (rule normalize_usgs_time_raises[OF coordinates_of_feature properties_of_feature n
          year_10000_seconds year_10000_time])
  moreover have "epoch_microseconds \<lparr> year = 2286, month = 11, day = 20, hour = 17,
      minute = 46, second = 40, microsecond = 999 \<rparr> = 10000000000000999"
    by code_simp
  ultimately show ?thesis
    by (simp add: dict_get_def)
qed

lemma normalize_usgs_delhi: "normalize_usgs delhi_quake = Inr delhi_record"
proof -
  have m: "map_of [(''place'', PStr ''Delhi''), (''mag'', PFloat (45 / 10)),
                   (''time'', PInt 1700000000000)] ''time'' = Some (PInt 1700000000000)"
    by simp
  have "normalize_usgs delhi_quake =
      Inr \<lparr> type = ''earthquake'',
             place = dict_get [(''place'', PStr ''Delhi''), (''mag'', PFloat (45 / 10)),
                               (''time'', PInt 1700000000000)] ''place'',
             magnitude = dict_get [(''place'', PStr ''Delhi''), (''mag'', PFloat (45 / 10)),
                                   (''time'', PInt 1700000000000)] ''mag'',
             coords = [PFloat (772 / 10), PFloat (286 / 10)], time = sample_time \<rparr>"
    unfolding delhi_quake_def
    by (rule normalize_usgs_result[OF coordinates_of_feature properties_of_feature m
          sample_seconds])
  then show ?thesis
    by (simp add: dict_get_def delhi_record_def)
qed

text \<open>
  C8. Normalizing a seismic feature is a function of the feature alone: it reads neither
  the clock nor the store, so two runs on the same feature give the same record, or the
  same exception. It even depends on no more of the feature than its first two
  coordinates and its properties place, mag and time.
\<close>

theorem normalize_usgs_deterministic:
  "(r1 = normalize_usgs event \<and> r2 = normalize_usgs event \<longrightarrow> r1 = r2)
   \<and> (coordinates_of e1 = Inr (PList (lon # lat # rest1))
       \<and> coordinates_of e2 = Inr (PList (lon # lat # rest2))
       \<and> getitem_key e1 ''properties'' = Inr (PDict ps1)
       \<and> getitem_key e2 ''properties'' = Inr (PDict ps2)
       \<and> map_of ps1 ''place'' = map_of ps2 ''place''
       \<and> map_of ps1 ''mag'' = map_of ps2 ''mag''
       \<and> map_of ps1 ''time'' = map_of ps2 ''time''
      \<longrightarrow> normalize_usgs e1 = normalize_usgs e2)"
  by (simp add: normalize_usgs_def and_then_def dict_get_def)

theorem normalize_usgs_deterministic_witness:
  "normalize_usgs delhi_quake = normalize_usgs delhi_quake
   \<and> normalize_usgs delhi_quake = Inr delhi_record
   \<and> normalize_usgs (feature [PFloat (772 / 10), PFloat (286 / 10), PInt 35]
         [(''time'', PInt 1700000000000), (''mag'', PFloat (45 / 10)),
          (''place'', PStr ''Delhi''), (''felt'', PInt 12)])
       = normalize_usgs delhi_quake"
proof -
  let ?ps1 = "[(''time'', PInt 1700000000000), (''mag'', PFloat (45 / 10)),
               (''place'', PStr ''Delhi''), (''felt'', PInt 12)]"
  let ?ps2 = "[(''place'', PStr ''Delhi''), (''mag'', PFloat (45 / 10)),
               (''time'', PInt 1700000000000)]"
  let ?e1 = "feature [PFloat (772 / 10), PFloat (286 / 10), PInt 35] ?ps1"
  have h: "coordinates_of ?e1 = Inr (PList (PFloat (772 / 10) # PFloat (286 / 10) # [PInt 35]))
       \<and> coordinates_of delhi_quake = Inr (PList (PFloat (772 / 10) # PFloat (286 / 10) # [PInt 10]))
       \<and> getitem_key ?e1 ''properties'' = Inr (PDict ?ps1)
       \<and> getitem_key delhi_quake ''properties'' = Inr (PDict ?ps2)
       \<and> map_of ?ps1 ''place'' = map_of ?ps2 ''place''
       \<and> map_of ?ps1 ''mag'' = map_of ?ps2 ''mag''
       \<and> map_of ?ps1 ''time'' = map_of ?ps2 ''time''"
    unfolding delhi_quake_def by (simp add: coordinates_of_feature properties_of_feature)
  note t = normalize_usgs_deterministic
    [where ?r1.0 = "normalize_usgs delhi_quake" and ?r2.0 = "normalize_usgs delhi_quake"
       and event = delhi_quake and ?e1.0 = ?e1 and ?e2.0 = delhi_quake
       and lon = "PFloat (772 / 10)" and lat = "PFloat (286 / 10)"
       and ?rest1.0 = "[PInt 35]" and ?rest2.0 = "[PInt 10]"
       and ?ps1.0 = ?ps1 and ?ps2.0 = ?ps2]
  from t h have "normalize_usgs ?e1 = normalize_usgs delhi_quake"
    by blast
  then show ?thesis
    by (simp add: normalize_usgs_delhi)
qed

text \<open>
  C9. A feature whose properties have no \<open>time\<close>, or whose coordinates are a list of
  fewer than two elements, makes the normalizer raise. A feature that is complete but
  for \<open>place\<close> or \<open>mag\<close> is normalized, with \<^verbatim>\<open>None\<close> in the field of the missing property.
\<close>

theorem normalize_usgs_requires_time_not_place:
  "(getitem_key event ''properties'' = Inr (PDict ps) \<and> map_of ps ''time'' = None
      \<longrightarrow> (\<exists>e. normalize_usgs event = Inl e))
   \<and> (coordinates_of event = Inr (PList (lon # lat # rest))
       \<and> getitem_key event ''properties'' = Inr (PDict ps) \<and> map_of ps ''time'' = None
      \<longrightarrow> normalize_usgs event = Inl KeyError)
   \<and> (coordinates_of event = Inr (PList cs) \<and> length cs < 2
      \<longrightarrow> (\<exists>e. normalize_usgs event = Inl e))
   \<and> (coordinates_of event = Inr (PList (lon # lat # rest))
       \<and> getitem_key event ''properties'' = Inr (PDict ps)
       \<and> map_of ps ''time'' = Some t \<and> truediv t 1000 = Inr secs
       \<and> utc_fromtimestamp secs = Inr dt
      \<longrightarrow> (\<exists>r. normalize_usgs event = Inr r
             \<and> (map_of ps ''place'' = None \<longrightarrow> place r = PNone)
             \<and> (map_of ps ''mag'' = None \<longrightarrow> magnitude r = PNone)))"
proof (intro conjI impI)
  assume "getitem_key event ''properties'' = Inr (PDict ps) \<and> map_of ps ''time'' = None"
  then show "\<exists>e. normalize_usgs event = Inl e"
    by (intro normalize_usgs_no_time[of event ps]) simp_all
next
  assume "coordinates_of event = Inr (PList (lon # lat # rest))
       \<and> getitem_key event ''properties'' = Inr (PDict ps) \<and> map_of ps ''time'' = None"
  then show "normalize_usgs event = Inl KeyError"
    by (simp add: normalize_usgs_def and_then_def)
next
  assume "coordinates_of event = Inr (PList cs) \<and> length cs < 2"
  then show "\<exists>e. normalize_usgs event = Inl e"
    by (intro normalize_usgs_short_coordinates[of event cs]) simp_all
next
  assume a: "coordinates_of event = Inr (PList (lon # lat # rest))
       \<and> getitem_key event ''properties'' = Inr (PDict ps)
       \<and> map_of ps ''time'' = Some t \<and> truediv t 1000 = Inr secs
       \<and> utc_fromtimestamp secs = Inr dt"
  then have "normalize_usgs event =
           Inr \<lparr> type = ''earthquake'', place = dict_get ps ''place'',
                  magnitude = dict_get ps ''mag'', coords = [lon, lat], time = dt \<rparr>"
    by (intro normalize_usgs_result[where t = t and secs = secs and rest = rest]) simp_all
  then show "\<exists>r. normalize_usgs event = Inr r
             \<and> (map_of ps ''place'' = None \<longrightarrow> place r = PNone)
             \<and> (map_of ps ''mag'' = None \<longrightarrow> magnitude r = PNone)"
    by (simp add: dict_get_def)
qed

theorem normalize_usgs_requires_time_witness:
  "getitem_key (feature [PInt 77, PInt 28, PInt 10] [(''place'', PStr ''Delhi'')]) ''properties''
     = Inr (PDict [(''place'', PStr ''Delhi'')])
   \<and> map_of [(''place'', PStr ''Delhi'')] ''time'' = None
   \<and> normalize_usgs (feature [PInt 77, PInt 28, PInt 10] [(''place'', PStr ''Delhi'')])
       = Inl KeyError
   \<and> length [PInt 77] < 2
   \<and> (\<exists>e. normalize_usgs (feature [PInt 77] [(''time'', PInt 1700000000000)]) = Inl e)
   \<and> map_of [(''time'', PInt 1700000000000)] ''place'' = None
   \<and> map_of [(''time'', PInt 1700000000000)] ''mag'' = None
   \<and> (\<exists>r. normalize_usgs (feature [PInt 77, PInt 28, PInt 10] [(''time'', PInt 1700000000000)])
             = Inr r \<and> place r = PNone \<and> magnitude r = PNone)"
proof -
  let ?f1 = "feature [PInt 77, PInt 28, PInt 10] [(''place'', PStr ''Delhi'')]"
  let ?f2 = "feature [PInt 77] [(''time'', PInt 1700000000000)]"
  let ?f3 = "feature [PInt 77, PInt 28, PInt 10] [(''time'', PInt 1700000000000)]"
  have h1: "coordinates_of ?f1 = Inr (PList (PInt 77 # PInt 28 # [PInt 10]))
       \<and> getitem_key ?f1 ''properties'' = Inr (PDict [(''place'', PStr ''Delhi'')])
       \<and> map_of [(''place'', PStr ''Delhi'')] ''time'' = None"
    by (simp add: coordinates_of_feature properties_of_feature)
  have h2: "coordinates_of ?f2 = Inr (PList [PInt 77]) \<and> length [PInt 77] < 2"
    by (simp add: coordinates_of_feature)
  have h3: "coordinates_of ?f3 = Inr (PList (PInt 77 # PInt 28 # [PInt 10]))
       \<and> getitem_key ?f3 ''properties'' = Inr (PDict [(''time'', PInt 1700000000000)])
       \<and> map_of [(''time'', PInt 1700000000000)] ''time'' = Some (PInt 1700000000000)
       \<and> truediv (PInt 1700000000000) 1000 = Inr (round_double (of_int 1700000000000 / 1000))
       \<and> utc_fromtimestamp (round_double (of_int 1700000000000 / 1000)) = Inr sample_time"
    by (simp only: coordinates_of_feature properties_of_feature sample_seconds) simp
  have n: "map_of [(''time'', PInt 1700000000000)] ''place'' = None"
    "map_of [(''time'', PInt 1700000000000)] ''mag'' = None"
    by simp_all
  note t1 = normalize_usgs_requires_time_not_place
      [of ?f1 "[(''place'', PStr ''Delhi'')]" "PInt 77" "PInt 28" "[PInt 10]"]
  note t2 = normalize_usgs_requires_time_not_place
      [of ?f2 _ _ _ _ "[PInt 77]"]
  note t3 = normalize_usgs_requires_time_not_place
      [of ?f3 "[(''time'', PInt 1700000000000)]" "PInt 77" "PInt 28" "[PInt 10]" _
          "PInt 1700000000000" "round_double (of_int 1700000000000 / 1000)" sample_time]
  from t1 h1 have a: "normalize_usgs ?f1 = Inl KeyError"
    by blast
  from t2 h2 have b: "\<exists>e. normalize_usgs ?f2 = Inl e"
    by blast
  from t3 h3 n have c: "\<exists>r. normalize_usgs ?f3 = Inr r \<and> place r = PNone \<and> magnitude r = PNone"
    by blast
  from a b c h1 n show ?thesis
    by simp
qed


section \<open>The thermal normalizer: properties\<close>

lemma normalize_firms_result:
  assumes "coordinates_of event = Inr (PList (lon # lat # rest))"
    and "getitem_key event ''properties'' = Inr (PDict ps)"
    and "truthy (dict_get ps ''brightness'') \<Longrightarrow> py_float rt (dict_get ps ''brightness'') = Inr b"
  shows "normalize_firms rt now event =
           Inr \<lparr> type = ''fire'',
                  place = (if truthy (dict_get ps ''satellite'') then dict_get ps ''satellite''
                           else PStr ''Unknown area''),
                  magnitude = (if truthy (dict_get ps ''brightness'') then PFloat (b / 100)
                               else PNone),
                  coords = [lon, lat],
                  time = (case strptime (format_value rt (dict_get ps ''acq_date'') @ '' '' @
                                         format_value rt (dict_get ps ''acq_time'')) of
                            Inr t \<Rightarrow> t | Inl e \<Rightarrow> now) \<rparr>"
  using assms by (simp add: normalize_firms_def and_then_def Let_def)












lemma strptime_sample: "strptime (''2024-03-01'' @ '' '' @ ''0530'') = Inr march_first"
  by code_simp


text \<open>
  C3, as the code has it. For a thermal feature with coordinates \<open>[lon, lat, \<dots>]\<close> whose
  brightness, when it is true in a condition, converts with \<^verbatim>\<open>float\<close>: the record has type
  fire; its place is the satellite property when that is present and true in a condition
  (a non-empty string), and "Unknown area" when it is absent or false (empty, \<^verbatim>\<open>None\<close>,
  zero); its magnitude is \<^verbatim>\<open>float(brightness) / 100\<close> when brightness is present and true
  in a condition (a non-zero number), and \<^verbatim>\<open>None\<close> when it is absent or false (zero).
\<close>

theorem normalize_firms_place_magnitude:
  assumes "coordinates_of event = Inr (PList (lon # lat # rest))"
    and "getitem_key event ''properties'' = Inr (PDict ps)"
    and "\<And>v. map_of ps ''brightness'' = Some v \<Longrightarrow> truthy v \<Longrightarrow> py_float rt v = Inr (b v)"
  shows "\<exists>r. normalize_firms rt now event = Inr r
           \<and> type r = ''fire''
           \<and> place r = (case map_of ps ''satellite'' of
                          Some s \<Rightarrow> if truthy s then s else PStr ''Unknown area''
                        | None \<Rightarrow> PStr ''Unknown area'')
           \<and> magnitude r = (case map_of ps ''brightness'' of
                              Some v \<Rightarrow> if truthy v then PFloat (b v / 100) else PNone
                            | None \<Rightarrow> PNone)"
proof -
  have "truthy (dict_get ps ''brightness'') \<Longrightarrow>
          py_float rt (dict_get ps ''brightness'') = Inr (b (dict_get ps ''brightness''))"
    using assms(3) by (auto simp: dict_get_def split: option.splits)
  from normalize_firms_result[OF assms(1,2) this, of now] show ?thesis
    by (auto simp: dict_get_def split: option.splits)
qed

theorem normalize_firms_terra_witness:
  "coordinates_of (feature [PFloat (785 / 10), PFloat (221 / 10)] terra_fire_props)
     = Inr (PList [PFloat (785 / 10), PFloat (221 / 10)])
   \<and> map_of terra_fire_props ''brightness'' = Some (PFloat (3125 / 10))
   \<and> truthy (PFloat (3125 / 10))
   \<and> py_float plain_runtime (PFloat (3125 / 10)) = Inr (3125 / 10)
   \<and> (\<exists>r. normalize_firms plain_runtime sample_time
             (feature [PFloat (785 / 10), PFloat (221 / 10)] terra_fire_props) = Inr r
           \<and> type r = ''fire'' \<and> place r = PStr ''Terra''
           \<and> magnitude r = PFloat (3125 / 10 / 100))"
proof -
  let ?f = "feature [PFloat (785 / 10), PFloat (221 / 10)] terra_fire_props"
  have c: "coordinates_of ?f = Inr (PList (PFloat (785 / 10) # PFloat (221 / 10) # []))"
    by (rule coordinates_of_feature)
  have p: "getitem_key ?f ''properties'' = Inr (PDict terra_fire_props)"
    by (rule properties_of_feature)
  have b: "py_float plain_runtime v = Inr ((\<lambda>v. 3125 / 10) v)"
    if "map_of terra_fire_props ''brightness'' = Some v" for v
    using that by (auto simp: terra_fire_props_def)
  from normalize_firms_place_magnitude[OF c p b, of sample_time] c show ?thesis
    by (simp add: terra_fire_props_def)
qed

theorem normalize_firms_falsy_counterexample:
  "map_of blank_fire_props ''satellite'' = Some (PStr [])
   \<and> map_of blank_fire_props ''brightness'' = Some (PInt 0)
   \<and> normalize_firms plain_runtime sample_time
        (feature [PFloat (785 / 10), PFloat (221 / 10)] blank_fire_props)
       = Inr \<lparr> type = ''fire'', place = PStr ''Unknown area'', magnitude = PNone,
                coords = [PFloat (785 / 10), PFloat (221 / 10)], time = march_first \<rparr>"
proof -
  let ?f = "feature [PFloat (785 / 10), PFloat (221 / 10)] blank_fire_props"
  have c: "coordinates_of ?f = Inr (PList (PFloat (785 / 10) # PFloat (221 / 10) # []))"
    by (rule coordinates_of_feature)
  have p: "getitem_key ?f ''properties'' = Inr (PDict blank_fire_props)"
    by (rule properties_of_feature)
  have g: "dict_get blank_fire_props ''brightness'' = PInt 0"
    "dict_get blank_fire_props ''satellite'' = PStr []"
    "dict_get blank_fire_props ''acq_date'' = PStr ''2024-03-01''"
    "dict_get blank_fire_props ''acq_time'' = PStr ''0530''"
    by (simp_all add: dict_get_def blank_fire_props_def)
  have "normalize_firms plain_runtime sample_time ?f
       = Inr \<lparr> type = ''fire'', place = PStr ''Unknown area'', magnitude = PNone,
                coords = [PFloat (785 / 10), PFloat (221 / 10)], time = march_first \<rparr>"
    by (subst normalize_firms_result[OF c p, of _ 0])
       (simp_all only: g format_value.simps strptime_sample, simp_all)
  then show ?thesis
    by (simp add: blank_fire_props_def)
qed




section \<open>The store keeps one document for each key\<close>

lemma key_of_stored_form: "key_of (stored_form d) = key_of d"
  by (simp add: key_of_def stored_form_def truncate_ms_idem)

lemma matches_key_of: "key_of d = key_of ev \<Longrightarrow> matches (coords ev) (time ev) d"
  by (simp add: key_of_def matches_def)

lemma stored_form_whole_ms:
  assumes "microsecond (time d) mod 1000 = 0"
  shows "stored_form d = d"
proof -
  have "microsecond (time d) div 1000 * 1000 = microsecond (time d)"
    using assms div_mult_mod_eq[of "microsecond (time d)" 1000] by simp
  then show ?thesis
    by (simp add: stored_form_def truncate_ms_def)
qed

lemma update_one_distinct_keys:
  assumes "distinct_keys (docs coll)"
  shows "distinct_keys (docs (snd (update_one (coords ev) (time ev) ev coll)))"
proof -
  have "stored_at (coords ev) (time ev) coll = [] \<Longrightarrow> key_of ev \<notin> set (map key_of (docs coll))"
    by (auto simp: stored_at_def filter_empty_conv dest: matches_key_of[OF sym])
  with assms show ?thesis
    by (auto simp: update_one_docs distinct_keys_def key_of_stored_form)
qed

lemma upsert_loop_distinct_keys:
  "distinct_keys (docs (store w)) \<Longrightarrow> distinct_keys (docs (store (snd (upsert_loop evs k w))))"
  by (induction evs arbitrary: k w)
     (simp_all add: upsert_loop_Cons Let_def print_def update_one_distinct_keys)

lemma run_pipeline_result:
  "run_pipeline rt w =
     (let w1 = w \<lparr> console := console w @ [Fetching_earthquake_data],
                    requested := requested w @ [USGS_URL] \<rparr>;
          w2 = w \<lparr> console := console w @ [Fetching_earthquake_data, Fetching_fire_data],
                    requested := requested w @ [USGS_URL, FIRMS_URL] \<rparr>
      in case fst (fetch_features USGS_URL w) of
           Inl e \<Rightarrow> (Inl e, w1)
         | Inr eq_data \<Rightarrow>
        (case fst (fetch_features FIRMS_URL w) of
           Inl e \<Rightarrow> (Inl e, w2)
         | Inr fire_data \<Rightarrow>
        (case and_then (py_iter eq_data) earthquakes_of of
           Inl e \<Rightarrow> (Inl e, w2)
         | Inr earthquakes \<Rightarrow>
        (case and_then (py_iter fire_data) (fires_of rt (clock w)) of
           Inl e \<Rightarrow> (Inl e, w2)
         | Inr fires \<Rightarrow>
             (Inr (fst (upsert_events (earthquakes @ fires) w2)),
              print (Inserted_updated (fst (upsert_events (earthquakes @ fires) w2)))
                (snd (upsert_events (earthquakes @ fires) w2)))))))"
  unfolding run_pipeline_def Let_def
  by (simp add: fetch_features_def print_def split: sum.splits prod.splits)


lemma run_pipeline_distinct_keys:
  assumes "distinct_keys (docs (store w))"
  shows "distinct_keys (docs (store (snd (run_pipeline rt w))))"
  using assms
  by (simp add: run_pipeline_result Let_def print_def upsert_events_def upsert_loop_distinct_keys
        split: sum.splits)

lemma stored_at_fresh_write:
  assumes "stored_at (coords ev) (time ev) coll = []" and "\<not> raises_at coll 0"
  shows "docs (snd (update_one (coords ev) (time ev) ev coll)) = docs coll @ [stored_form ev]"
  using assms by (simp add: update_one_docs)

lemma stored_at_repeated_write:
  assumes "stored_at c t coll \<noteq> []"
  shows "docs (snd (update_one c t ev coll)) = docs coll"
  using assms by (simp add: update_one_docs)

text \<open>
  C6, as the collection compares and keeps documents. The collection never holds two
  documents with the same \<open>coords\<close> and \<open>time\<close>, numbers compared by value and times to the
  millisecond (so all the less two that agree on them exactly): the empty collection has
  none, and neither a batch of the writer nor a whole cycle introduces one, whichever
  calls fail. Two writes with one key into a collection that has no document for it,
  neither of which raises, leave exactly one document for the key: the first payload
  with its time cut to the millisecond, which is the payload itself when its time is a
  whole number of milliseconds; the second write changes nothing.
\<close>

theorem store_keeps_one_document_per_key:
  "distinct_keys []
   \<and> (distinct_keys (docs (store w))
        \<longrightarrow> distinct_keys (docs (store (snd (upsert_events events w)))))
   \<and> (distinct_keys (docs (store w))
        \<longrightarrow> distinct_keys (docs (store (snd (run_pipeline rt w)))))
   \<and> (stored_at (coords ev) (time ev) (store w) = []
       \<and> key_of ev' = key_of ev
       \<and> \<not> raises_at (store w) 0 \<and> \<not> raises_at (store w) 1
        \<longrightarrow> stored_at (coords ev) (time ev) (store (snd (upsert_events [ev, ev'] w)))
              = [stored_form ev]
            \<and> docs (store (snd (upsert_events [ev, ev'] w))) = docs (store w) @ [stored_form ev]
            \<and> docs (store (snd (upsert_events [ev, ev'] w)))
                = docs (store (snd (upsert_events [ev] w))))
   \<and> (coords ev' = coords ev \<and> time ev' = time ev \<longrightarrow> key_of ev' = key_of ev)
   \<and> (microsecond (time ev) mod 1000 = 0 \<longrightarrow> stored_form ev = ev)"
proof (intro conjI impI)
  show "distinct_keys []"
    by (simp add: distinct_keys_def)
next
  assume "distinct_keys (docs (store w))"
  then show "distinct_keys (docs (store (snd (upsert_events events w))))"
    unfolding upsert_events_def by (rule upsert_loop_distinct_keys)
next
  assume "distinct_keys (docs (store w))"
  then show "distinct_keys (docs (store (snd (run_pipeline rt w))))"
    by (rule run_pipeline_distinct_keys)
next
  assume "coords ev' = coords ev \<and> time ev' = time ev"
  then show "key_of ev' = key_of ev"
    by (simp add: key_of_def)
next
  assume "microsecond (time ev) mod 1000 = 0"
  then show "stored_form ev = ev"
    by (rule stored_form_whole_ms)
next
  assume a: "stored_at (coords ev) (time ev) (store w) = []
       \<and> key_of ev' = key_of ev
       \<and> \<not> raises_at (store w) 0 \<and> \<not> raises_at (store w) 1"
  let ?c1 = "snd (update_one (coords ev) (time ev) ev (store w))"
  let ?c2 = "snd (update_one (coords ev') (time ev') ev' ?c1)"
  have d1: "docs ?c1 = docs (store w) @ [stored_form ev]"
    using a by (intro stored_at_fresh_write) simp_all
  have m1: "matches (coords ev) (time ev) (stored_form ev)"
    by (simp add: matches_stored_form matches_self)
  have "key_of (stored_form ev) = key_of ev'"
    using a by (simp add: key_of_stored_form)
  then have m2: "matches (coords ev') (time ev') (stored_form ev)"
    by (rule matches_key_of)
  have s1: "stored_at (coords ev) (time ev) ?c1 = [stored_form ev]"
    using a d1 m1 by (simp add: stored_at_def)
  have "stored_at (coords ev') (time ev') ?c1 \<noteq> []"
    using d1 m2 by (simp add: stored_at_def)
  then have d2: "docs ?c2 = docs ?c1"
    by (rule stored_at_repeated_write)
  have r1: "\<not> raises_at ?c1 0"
    using a by (simp add: raises_at_update_one)
  have u2: "docs (store (snd (upsert_events [ev, ev'] w))) = docs ?c2"
    using a r1 by (simp add: upsert_events_def upsert_loop_Cons Let_def)
  have u1: "docs (store (snd (upsert_events [ev] w))) = docs ?c1"
    using a by (simp add: upsert_events_def upsert_loop_Cons Let_def)
  show "stored_at (coords ev) (time ev) (store (snd (upsert_events [ev, ev'] w)))
          = [stored_form ev]"
    using s1 u2 d2 by (simp add: stored_at_def)
  show "docs (store (snd (upsert_events [ev, ev'] w))) = docs (store w) @ [stored_form ev]"
    using u2 d2 d1 by simp
  show "docs (store (snd (upsert_events [ev, ev'] w))) = docs (store (snd (upsert_events [ev] w)))"
    using u1 u2 d2 by simp
qed

theorem store_same_key_twice_witness:
  "distinct_keys (docs (store (offline_world [])))
   \<and> distinct_keys (docs (store (snd (upsert_events [quake_at 77, quake_at 77] (offline_world [])))))
   \<and> distinct_keys (docs (store (snd (run_pipeline plain_runtime (offline_world [])))))
   \<and> stored_at (coords (quake_at 77)) (time (quake_at 77)) (store (offline_world [])) = []
   \<and> key_of ((quake_at 77) \<lparr> place := PStr ''again'', coords := [PFloat 77, PFloat 28] \<rparr>)
       = key_of (quake_at 77)
   \<and> \<not> raises_at (store (offline_world [])) 0 \<and> \<not> raises_at (store (offline_world [])) 1
   \<and> microsecond (time (quake_at 77)) mod 1000 = 0
   \<and> stored_at (coords (quake_at 77)) (time (quake_at 77))
        (store (snd (upsert_events
           [quake_at 77, (quake_at 77) \<lparr> place := PStr ''again'', coords := [PFloat 77, PFloat 28] \<rparr>]
           (offline_world [])))) = [quake_at 77]
   \<and> docs (store (snd (upsert_events
           [quake_at 77, (quake_at 77) \<lparr> place := PStr ''again'', coords := [PFloat 77, PFloat 28] \<rparr>]
           (offline_world [])))) = [quake_at 77]"
proof -
  let ?w = "offline_world []"
  let ?e = "quake_at 77"
  let ?e' = "(quake_at 77) \<lparr> place := PStr ''again'', coords := [PFloat 77, PFloat 28] \<rparr>"
  have h0: "distinct_keys (docs (store ?w))"
    by (simp add: offline_world_def distinct_keys_def)
  have k: "key_of ?e' = key_of ?e"
    by (simp add: key_of_def quake_at_def)
  have h1: "stored_at (coords ?e) (time ?e) (store ?w) = []
       \<and> key_of ?e' = key_of ?e
       \<and> \<not> raises_at (store ?w) 0 \<and> \<not> raises_at (store ?w) 1"
    using k by (simp add: offline_world_def stored_at_def raises_at_def)
  have h2: "microsecond (time ?e) mod 1000 = 0"
    by (simp add: quake_at_def sample_time_def)
  have d: "docs (store ?w) = []"
    by (simp add: offline_world_def)
  note t1 = store_keeps_one_document_per_key[of ?w "[?e, ?e]" plain_runtime ?e ?e']
  from t1 h0 have a: "distinct_keys (docs (store (snd (upsert_events [?e, ?e] ?w))))"
    and b: "distinct_keys (docs (store (snd (run_pipeline plain_runtime ?w))))"
    by blast+
  from t1 h1 have c: "stored_at (coords ?e) (time ?e) (store (snd (upsert_events [?e, ?e'] ?w)))
        = [stored_form ?e]"
    and e: "docs (store (snd (upsert_events [?e, ?e'] ?w))) = docs (store ?w) @ [stored_form ?e]"
    by blast+
  from t1 h2 have f: "stored_form ?e = ?e"
    by blast
  from h0 h1 h2 a b c e d f show ?thesis
    by simp
qed

theorem store_submillisecond_counterexample:
  "docs (store (snd (upsert_events
      [(quake_at 77) \<lparr> time := sample_time \<lparr> microsecond := 123456 \<rparr> \<rparr>,
       (quake_at 77) \<lparr> time := sample_time \<lparr> microsecond := 123456 \<rparr> \<rparr>]
      (offline_world []))))
     = [(quake_at 77) \<lparr> time := sample_time \<lparr> microsecond := 123000 \<rparr> \<rparr>]
   \<and> (quake_at 77) \<lparr> time := sample_time \<lparr> microsecond := 123000 \<rparr> \<rparr>
       \<noteq> (quake_at 77) \<lparr> time := sample_time \<lparr> microsecond := 123456 \<rparr> \<rparr>
   \<and> fst (upsert_events
      [(quake_at 77) \<lparr> time := sample_time \<lparr> microsecond := 123456 \<rparr> \<rparr>,
       (quake_at 77) \<lparr> time := sample_time \<lparr> microsecond := 123456 \<rparr> \<rparr>]
      (offline_world [])) = 2"
  by (simp add: upsert_events_def upsert_loop.simps(2) update_one_def Let_def print_def
        offline_world_def quake_at_def matches_def stored_form_def truncate_ms_def
        sample_time_def)

section \<open>The pipeline: abort and order\<close>


lemma urls_differ: "FIRMS_URL \<noteq> USGS_URL"
  by (simp add: FIRMS_URL_def USGS_URL_def)


lemma earthquakes_of_Inr:
  "earthquakes_of fs = Inr rs \<Longrightarrow>
     map Inr rs = map normalize_usgs (filter (\<lambda>f. in_box f = Inr True) fs)"
proof (induction fs arbitrary: rs)
  case Nil
  then show ?case by simp
next
  case (Cons f fs)
  then show ?case
    by (auto simp: and_then_def split: sum.splits if_splits)
qed

lemma fires_of_Inr:
  "fires_of rt (\<lambda>i. clk (n + i)) fs = Inr rs \<Longrightarrow>
     map Inr rs = map (\<lambda>(i, f). normalize_firms rt (clk i) f)
                      (filter (\<lambda>(i, f). in_box f = Inr True) (enumerate n fs))"
proof (induction fs arbitrary: rs n)
  case Nil
  then show ?case by simp
next
  case (Cons f fs)
  have s: "(\<lambda>i. clk (n + Suc i)) = (\<lambda>i. clk (Suc n + i))"
    by simp
  from Cons.prems show ?case
    using Cons.IH[of "Suc n"]
    by (auto simp: and_then_def s split: sum.splits if_splits)
qed

text \<open>
  C10. In a cycle that completes, the records handed to the writer are the normalized
  in-box seismic features in feed order followed by the normalized in-box thermal
  features in feed order, and the writer calls \<^verbatim>\<open>update_one\<close> for them in exactly that
  order.
\<close>

theorem run_pipeline_order:
  assumes "run_pipeline rt w = (Inr n, w')"
  shows "\<exists>eq_data fire_data eq_feed fire_feed earthquakes fires.
           fst (fetch_features USGS_URL w) = Inr eq_data \<and> py_iter eq_data = Inr eq_feed
         \<and> fst (fetch_features FIRMS_URL w) = Inr fire_data \<and> py_iter fire_data = Inr fire_feed
         \<and> map Inr earthquakes = map normalize_usgs (filter (\<lambda>f. in_box f = Inr True) eq_feed)
         \<and> map Inr fires = map (\<lambda>(i, f). normalize_firms rt (clock w i) f)
                               (filter (\<lambda>(i, f). in_box f = Inr True) (enumerate 0 fire_feed))
         \<and> calls (store w') = calls (store w) @ earthquakes @ fires"
proof -
  let ?w2 = "w \<lparr> console := console w @ [Fetching_earthquake_data, Fetching_fire_data],
                  requested := requested w @ [USGS_URL, FIRMS_URL] \<rparr>"
  from assms obtain eq_data fire_data earthquakes fires
    where f: "fst (fetch_features USGS_URL w) = Inr eq_data"
             "fst (fetch_features FIRMS_URL w) = Inr fire_data"
      and n: "and_then (py_iter eq_data) earthquakes_of = Inr earthquakes"
             "and_then (py_iter fire_data) (fires_of rt (clock w)) = Inr fires"
      and w': "w' = print (Inserted_updated (fst (upsert_events (earthquakes @ fires) ?w2)))
                      (snd (upsert_events (earthquakes @ fires) ?w2))"
    by (auto simp: run_pipeline_result Let_def split: sum.splits)
  from n obtain eq_feed fire_feed
    where i: "py_iter eq_data = Inr eq_feed" "py_iter fire_data = Inr fire_feed"
      and r: "earthquakes_of eq_feed = Inr earthquakes" "fires_of rt (clock w) fire_feed = Inr fires"
    by (auto simp: and_then_def split: sum.splits)
  have "fires_of rt (\<lambda>i. clock w (0 + i)) fire_feed = Inr fires"
    using r(2) by simp
  note fires_of_Inr[OF this]
  moreover note earthquakes_of_Inr[OF r(1)]
  moreover have "calls (store w') = calls (store w) @ earthquakes @ fires"
    unfolding w' upsert_events_def by (simp add: print_def upsert_loop_calls)
  ultimately show ?thesis
    using f i by blast
qed


lemma in_box_feature: "in_box (feature (lon # lat # rest) ps) = in_india lat lon"
  by (simp add: in_box_def coordinates_of_feature and_then_def)

lemma normalize_firms_terra: "normalize_firms plain_runtime now terra_fire = Inr terra_record"
proof -
  have g: "dict_get terra_fire_props ''brightness'' = PFloat (3125 / 10)"
    "dict_get terra_fire_props ''satellite'' = PStr ''Terra''"
    "dict_get terra_fire_props ''acq_date'' = PStr ''2024-03-01''"
    "dict_get terra_fire_props ''acq_time'' = PStr ''0530''"
    by (simp_all add: dict_get_def terra_fire_props_def)
  have "py_float plain_runtime (dict_get terra_fire_props ''brightness'') = Inr (3125 / 10)"
    by (simp add: g)
  from normalize_firms_result[OF coordinates_of_feature properties_of_feature this, of now]
  have "normalize_firms plain_runtime now terra_fire =
      Inr \<lparr> type = ''fire'', place = PStr ''Terra'', magnitude = PFloat (3125 / 10 / 100),
             coords = [PFloat (785 / 10), PFloat (221 / 10)],
             time = (case strptime (''2024-03-01'' @ '' '' @ ''0530'') of
                       Inr t \<Rightarrow> t | Inl e \<Rightarrow> now) \<rparr>"
    unfolding terra_fire_def g format_value.simps by simp
  then show ?thesis
    by (simp only: strptime_sample terra_record_def sum.case)
qed

lemma two_feeds_fetch:
  "fst (fetch_features USGS_URL two_feeds_world) = Inr (PList [atlantic_quake, delhi_quake])"
  "fst (fetch_features FIRMS_URL two_feeds_world) = Inr (PList [terra_fire])"
  by (simp_all add: fetch_features_def two_feeds_world_def world_of_def feeds_of_def
        and_then_def feature_collection_def ok_response_def urls_differ)

lemma two_feeds_records:
  "earthquakes_of [atlantic_quake, delhi_quake] = Inr [delhi_record]"
  "fires_of plain_runtime clk [terra_fire] = Inr [terra_record]"
  "earthquakes_of [delhi_quake] = Inr [delhi_record]"
proof -
  have "in_box atlantic_quake = Inr False" and "in_box delhi_quake = Inr True"
    unfolding atlantic_quake_def delhi_quake_def in_box_feature
    by (simp_all add: in_india_def and_then_def float_le_def le_float_def)
  then show "earthquakes_of [atlantic_quake, delhi_quake] = Inr [delhi_record]"
    and "earthquakes_of [delhi_quake] = Inr [delhi_record]"
    by (simp_all add: and_then_def normalize_usgs_delhi)
  have "in_box terra_fire = Inr True"
    unfolding terra_fire_def in_box_feature
    by (simp add: in_india_def and_then_def float_le_def le_float_def)
  then show "fires_of plain_runtime clk [terra_fire] = Inr [terra_record]"
    by (simp add: and_then_def normalize_firms_terra)
qed

lemma run_pipeline_completes:
  assumes "fst (fetch_features USGS_URL w) = Inr eq_data"
    and "fst (fetch_features FIRMS_URL w) = Inr fire_data"
    and "and_then (py_iter eq_data) earthquakes_of = Inr earthquakes"
    and "and_then (py_iter fire_data) (fires_of rt (clock w)) = Inr fires"
    and "w2 = w \<lparr> console := console w @ [Fetching_earthquake_data, Fetching_fire_data],
                   requested := requested w @ [USGS_URL, FIRMS_URL] \<rparr>"
  shows "run_pipeline rt w =
      (Inr (fst (upsert_events (earthquakes @ fires) w2)),
       print (Inserted_updated (fst (upsert_events (earthquakes @ fires) w2)))
         (snd (upsert_events (earthquakes @ fires) w2)))"
  using assms by (simp add: run_pipeline_result Let_def)

lemma upsert_delhi_terra:
  assumes "store w = \<lparr> docs = [], faults = [], calls = [] \<rparr>"
  shows "fst (upsert_events [delhi_record, terra_record] w) = 2"
    and "calls (store (snd (upsert_events [delhi_record, terra_record] w)))
           = [delhi_record, terra_record]"
    and "docs (store (snd (upsert_events [delhi_record, terra_record] w)))
           = [delhi_record, terra_record]"
    and "requested (snd (upsert_events [delhi_record, terra_record] w)) = requested w"
    and "fst (upsert_events [terra_record] w) = 1"
    and "docs (store (snd (upsert_events [terra_record] w))) = [terra_record]"
    and "requested (snd (upsert_events [terra_record] w)) = requested w"
  by (simp_all add: upsert_events_def upsert_loop.simps(2) update_one_def Let_def print_def assms
        matches_def stored_form_def truncate_ms_def delhi_record_def terra_record_def
        sample_time_def march_first_def)

lemma two_feeds_run:
  "fst (run_pipeline plain_runtime two_feeds_world) = Inr 2"
  "calls (store (snd (run_pipeline plain_runtime two_feeds_world))) = [delhi_record, terra_record]"
  "docs (store (snd (run_pipeline plain_runtime two_feeds_world))) = [delhi_record, terra_record]"
proof -
  define w2 where "w2 = two_feeds_world \<lparr> console := console two_feeds_world
                                   @ [Fetching_earthquake_data, Fetching_fire_data],
                 requested := requested two_feeds_world @ [USGS_URL, FIRMS_URL] \<rparr>"
  have e: "and_then (py_iter (PList [atlantic_quake, delhi_quake])) earthquakes_of
             = Inr [delhi_record]"
    and f: "and_then (py_iter (PList [terra_fire])) (fires_of plain_runtime (clock two_feeds_world))
             = Inr [terra_record]"
    by (simp_all add: and_then_def two_feeds_records del: earthquakes_of.simps fires_of.simps)
  have s: "store w2 = \<lparr> docs = [], faults = [], calls = [] \<rparr>"
    by (simp add: w2_def two_feeds_world_def world_of_def)
  show "fst (run_pipeline plain_runtime two_feeds_world) = Inr 2"
    "calls (store (snd (run_pipeline plain_runtime two_feeds_world))) = [delhi_record, terra_record]"
    "docs (store (snd (run_pipeline plain_runtime two_feeds_world))) = [delhi_record, terra_record]"
    unfolding run_pipeline_completes[OF two_feeds_fetch e f w2_def]
    by (simp_all add: print_def upsert_delhi_terra[OF s])
qed

theorem run_pipeline_order_witness:
  "fst (run_pipeline plain_runtime two_feeds_world) = Inr 2
   \<and> (\<exists>eq_feed fire_feed earthquakes fires.
         py_iter (PList [atlantic_quake, delhi_quake]) = Inr eq_feed
       \<and> py_iter (PList [terra_fire]) = Inr fire_feed
       \<and> map Inr earthquakes = map normalize_usgs (filter (\<lambda>f. in_box f = Inr True) eq_feed)
       \<and> map Inr fires = map (\<lambda>(i, f). normalize_firms plain_runtime (clock two_feeds_world i) f)
                             (filter (\<lambda>(i, f). in_box f = Inr True) (enumerate 0 fire_feed))
       \<and> calls (store (snd (run_pipeline plain_runtime two_feeds_world)))
           = calls (store two_feeds_world) @ earthquakes @ fires)
   \<and> calls (store (snd (run_pipeline plain_runtime two_feeds_world)))
       = [delhi_record, terra_record]"
proof -
  have "run_pipeline plain_runtime two_feeds_world
          = (Inr 2, snd (run_pipeline plain_runtime two_feeds_world))"
    using two_feeds_run(1) by (simp add: prod_eq_iff)
  from run_pipeline_order[OF this] show ?thesis
    using two_feeds_fetch two_feeds_run by auto
qed


end
